theory Spec2Isabelle
  imports Main "HOL-Library.Sublist"
begin

section \<open>genpkgbuild-go: a shallow embedding of \<open>main.go\<close>\<close>

text \<open>
  The program is one Go file. Its own functions (\<open>run\<close>, \<open>prompt\<close>, \<open>getVersion\<close>,
  \<open>main\<close>) and its template are embedded below, each next to the Go text it follows.
  The functions of the Go standard library that decide what the program computes
  (\<open>strings.TrimSpace\<close>, \<open>strings.Fields\<close>, \<open>path.Base\<close>, \<open>filepath.Rel\<close>,
  the \<open>flag\<close> parser, the escaper of \<open>html/template\<close>) are embedded from the
  library's sources, on Unix. A Go string is a sequence of bytes: \<open>string\<close> here.
\<close>

subsection \<open>Errors\<close>

text \<open>
  Go errors are values. \<open>ErrorString\<close> is \<open>errors.New\<close> and \<open>fmt.Errorf\<close> without
  \<open>%w\<close>; \<open>WrapError p e\<close> is \<open>fmt.Errorf(p + "%w", e)\<close>; \<open>PathError op path msg\<close> is
  \<open>*os.PathError\<close>; \<open>IncorrectUsageError\<close> is the struct of that name, which embeds an
  error.
\<close>

datatype error =
    ErrorString string
  | WrapError string error
  | PathError string string string
  | IncorrectUsageError error

fun Error :: "error \<Rightarrow> string" where
  "Error (ErrorString s) = s"
| "Error (WrapError p e) = p @ Error e"
| "Error (PathError op' path msg) = op' @ '' '' @ path @ '': '' @ msg"
| "Error (IncorrectUsageError e) = Error e"

text \<open>\<open>errors.As(err, new(IncorrectUsageError))\<close>: walks the chain of wrapped errors.\<close>

fun AsIncorrectUsageError :: "error \<Rightarrow> bool" where
  "AsIncorrectUsageError (IncorrectUsageError e) = True"
| "AsIncorrectUsageError (WrapError p e) = AsIncorrectUsageError e"
| "AsIncorrectUsageError (PathError op' path msg) = False"
| "AsIncorrectUsageError (ErrorString s) = False"

subsection \<open>UTF-8 decoding and Unicode white space (\<open>unicode/utf8\<close>, \<open>unicode\<close>)\<close>

type_synonym rune = nat

definition RuneError :: rune where
  "RuneError = 0xFFFD"

definition RuneSelf :: nat where
  "RuneSelf = 0x80"

text \<open>The classes of the table \<open>first\<close> of \<open>unicode/utf8\<close>, by leading byte.\<close>

datatype first_class = AS | XX | S1 | S2 | S3 | S4 | S5 | S6 | S7

definition first :: "nat \<Rightarrow> first_class" where
  "first b =
    (if b < 0x80 then AS
     else if b < 0xC2 then XX
     else if b < 0xE0 then S1
     else if b = 0xE0 then S2
     else if b < 0xED then S3
     else if b = 0xED then S4
     else if b < 0xF0 then S3
     else if b = 0xF0 then S5
     else if b < 0xF4 then S6
     else if b = 0xF4 then S7
     else XX)"

fun seq_size :: "first_class \<Rightarrow> nat" where
  "seq_size AS = 1"
| "seq_size XX = 1"
| "seq_size S1 = 2"
| "seq_size S2 = 3"
| "seq_size S3 = 3"
| "seq_size S4 = 3"
| "seq_size S5 = 4"
| "seq_size S6 = 4"
| "seq_size S7 = 4"

fun acceptRanges :: "first_class \<Rightarrow> nat \<times> nat" where
  "acceptRanges S2 = (0xA0, 0xBF)"
| "acceptRanges S4 = (0x80, 0x9F)"
| "acceptRanges S5 = (0x90, 0xBF)"
| "acceptRanges S7 = (0x80, 0x8F)"
| "acceptRanges _ = (0x80, 0xBF)"

text \<open>
  \<open>utf8.DecodeRuneInString\<close>: the rune at the head of \<open>s\<close> and its width in bytes;
  \<open>(RuneError, 1)\<close> on an invalid encoding. The masks and shifts of the Go text
  (\<open>s0&mask2\<close>, \<open><<6\<close>, ...) are written as \<open>mod\<close> and multiplication.
\<close>

definition DecodeRuneInString :: "string \<Rightarrow> rune \<times> nat" where
  "DecodeRuneInString s =
    (let n = length s in
     if n < 1 then (RuneError, 0)
     else let s0 = of_char (s ! 0) :: nat; x = first s0 in
       if x = AS then (s0, 1)
       else if x = XX then (RuneError, 1)
       else let sz = seq_size x; accept = acceptRanges x in
         if n < sz then (RuneError, 1)
         else let s1 = of_char (s ! 1) :: nat in
           if s1 < fst accept \<or> snd accept < s1 then (RuneError, 1)
           else if sz \<le> 2 then ((s0 mod 32) * 64 + s1 mod 64, 2)
           else let s2 = of_char (s ! 2) :: nat in
             if s2 < 0x80 \<or> 0xBF < s2 then (RuneError, 1)
             else if sz \<le> 3
               then ((s0 mod 16) * 4096 + (s1 mod 64) * 64 + s2 mod 64, 3)
             else let s3 = of_char (s ! 3) :: nat in
               if s3 < 0x80 \<or> 0xBF < s3 then (RuneError, 1)
               else ((s0 mod 8) * 262144 + (s1 mod 64) * 4096 + (s2 mod 64) * 64
                       + s3 mod 64, 4))"

text \<open>\<open>utf8.RuneStart\<close>: the byte is not a continuation byte.\<close>

definition RuneStart :: "char \<Rightarrow> bool" where
  "RuneStart b = ((of_char b :: nat) div 64 \<noteq> 2)"

text \<open>
  The backward search of \<open>utf8.DecodeLastRuneInString\<close>:
  \<^verbatim>\<open>for start--; start >= lim; start-- { if RuneStart(s[start]) { break } }\<close>
\<close>

function findStart :: "string \<Rightarrow> int \<Rightarrow> int \<Rightarrow> int" where
  "findStart s lim start =
    (if start \<ge> lim
     then (if RuneStart (s ! nat start) then start else findStart s lim (start - 1))
     else start)"
  by pat_completeness auto
termination
  by (relation "measure (\<lambda>(s, lim, start). nat (start - lim + 1))") auto

declare findStart.simps [simp del]

definition DecodeLastRuneInString :: "string \<Rightarrow> rune \<times> nat" where
  "DecodeLastRuneInString s =
    (let end' = int (length s) in
     if end' = 0 then (RuneError, 0)
     else let r = of_char (s ! nat (end' - 1)) :: nat in
       if r < RuneSelf then (r, 1)
       else let lim = max 0 (end' - 4);
                start = max 0 (findStart s lim (end' - 2));
                d = DecodeRuneInString (drop (nat start) s) in
         if start + int (snd d) \<noteq> end' then (RuneError, 1) else d)"

text \<open>\<open>unicode.IsSpace\<close>: the Latin-1 cases, then the table \<open>White_Space\<close>.\<close>

definition IsSpace :: "rune \<Rightarrow> bool" where
  "IsSpace r =
    (if r \<le> 0xFF
     then r = 0x09 \<or> r = 0x0A \<or> r = 0x0B \<or> r = 0x0C \<or> r = 0x0D \<or> r = 0x20
            \<or> r = 0x85 \<or> r = 0xA0
     else r = 0x1680 \<or> (0x2000 \<le> r \<and> r \<le> 0x200A) \<or> r = 0x2028 \<or> r = 0x2029
            \<or> r = 0x202F \<or> r = 0x205F \<or> r = 0x3000)"

lemma DecodeRuneInString_width: "s \<noteq> [] \<Longrightarrow> 1 \<le> snd (DecodeRuneInString s)"
  by (cases s) (simp_all add: DecodeRuneInString_def Let_def)

lemma findStart_le: "findStart s lim start \<le> start"
proof (induction s lim start rule: findStart.induct)
  case (1 s lim start)
  then show ?case
    by (subst findStart.simps) (auto simp add: order.trans [of _ "start - 1" start])
qed

lemma DecodeLastRuneInString_width: "s \<noteq> [] \<Longrightarrow> 1 \<le> snd (DecodeLastRuneInString s)"
proof -
  assume ne: "s \<noteq> []"
  define start where
    "start = max 0 (findStart s (max 0 (int (length s) - 4)) (int (length s) - 2))"
  have "start < int (length s)"
    using findStart_le [of s "max 0 (int (length s) - 4)" "int (length s) - 2"] ne
    by (simp add: start_def)
  moreover have "0 \<le> start"
    by (simp add: start_def)
  ultimately have "nat start < length s"
    by (simp add: nat_less_iff)
  then have "drop (nat start) s \<noteq> []"
    by simp
  then have "1 \<le> snd (DecodeRuneInString (drop (nat start) s))"
    by (rule DecodeRuneInString_width)
  then show ?thesis
    using ne by (simp add: DecodeLastRuneInString_def Let_def start_def)
qed

subsection \<open>\<open>strings.TrimSpace\<close> and \<open>strings.Fields\<close>\<close>

text \<open>
  \<open>strings.TrimLeftFunc\<close>: \<open>indexFunc\<close> ranges over the runes of \<open>s\<close> and stops at the
  first one on which \<open>f\<close> is false; the result is \<open>s\<close> from there.
\<close>

function TrimLeftFunc :: "(rune \<Rightarrow> bool) \<Rightarrow> string \<Rightarrow> string" where
  "TrimLeftFunc f s =
    (if s = [] then []
     else let d = DecodeRuneInString s in
       if f (fst d) then TrimLeftFunc f (drop (snd d) s) else s)"
  by pat_completeness auto
termination
proof (relation "measure (\<lambda>(f, s). length s)")
  show "wf (measure (\<lambda>(f, s). length s))" by simp
next
  fix f :: "rune \<Rightarrow> bool" and s :: string and d
  assume "s \<noteq> []" and "d = DecodeRuneInString s"
  then show "((f, drop (snd d) s), (f, s)) \<in> measure (\<lambda>(f, s). length s)"
    using DecodeRuneInString_width [of s] by simp
qed

declare TrimLeftFunc.simps [simp del]

text \<open>
  \<open>strings.lastIndexFunc(s, f, truth)\<close>: the start of the last rune of \<open>s\<close> on which
  \<open>f\<close> equals \<open>truth\<close>; \<open>None\<close> is Go's \<open>-1\<close>. The argument is the prefix \<open>s[0:i]\<close>
  of the loop.
\<close>

function lastIndexFunc :: "(rune \<Rightarrow> bool) \<Rightarrow> bool \<Rightarrow> string \<Rightarrow> nat option" where
  "lastIndexFunc f truth s =
    (if s = [] then None
     else let d = DecodeLastRuneInString s; i = length s - snd d in
       if f (fst d) = truth then Some i else lastIndexFunc f truth (take i s))"
  by pat_completeness auto
termination
proof (relation "measure (\<lambda>(f, truth, s). length s)")
  show "wf (measure (\<lambda>(f, truth, s). length s))" by simp
next
  fix f :: "rune \<Rightarrow> bool" and truth :: bool and s :: string and d i
  assume "s \<noteq> []" and "d = DecodeLastRuneInString s" and "i = length s - snd d"
  then show "((f, truth, take i s), (f, truth, s)) \<in> measure (\<lambda>(f, truth, s). length s)"
    using DecodeLastRuneInString_width [of s] by (cases s) auto
qed

declare lastIndexFunc.simps [simp del]

definition TrimRightFunc :: "(rune \<Rightarrow> bool) \<Rightarrow> string \<Rightarrow> string" where
  "TrimRightFunc f s =
    (case lastIndexFunc f False s of
       None \<Rightarrow> []
     | Some i \<Rightarrow>
         if (of_char (s ! i) :: nat) \<ge> RuneSelf
         then take (i + snd (DecodeRuneInString (drop i s))) s
         else take (i + 1) s)"

definition TrimFunc :: "(rune \<Rightarrow> bool) \<Rightarrow> string \<Rightarrow> string" where
  "TrimFunc f s = TrimRightFunc f (TrimLeftFunc f s)"

text \<open>
  \<open>strings.TrimSpace\<close> removes all leading and trailing white space, as defined by
  Unicode: it is \<open>TrimFunc(s, unicode.IsSpace)\<close> behind a fast path for ASCII.
\<close>

definition TrimSpace :: "string \<Rightarrow> string" where
  "TrimSpace s = TrimFunc IsSpace s"

text \<open>
  \<open>strings.FieldsFunc\<close>: \<open>cur\<close> is the field being read (\<open>None\<close> when \<open>start < 0\<close>),
  \<open>s\<close> what the range loop has not yet seen.
\<close>

function FieldsLoop :: "(rune \<Rightarrow> bool) \<Rightarrow> string option \<Rightarrow> string \<Rightarrow> string list" where
  "FieldsLoop f cur s =
    (if s = [] then (case cur of None \<Rightarrow> [] | Some c \<Rightarrow> [c])
     else let d = DecodeRuneInString s in
       if f (fst d)
       then (case cur of
               Some c \<Rightarrow> c # FieldsLoop f None (drop (snd d) s)
             | None \<Rightarrow> FieldsLoop f None (drop (snd d) s))
       else FieldsLoop f (Some ((case cur of None \<Rightarrow> [] | Some c \<Rightarrow> c) @ take (snd d) s))
              (drop (snd d) s))"
  by pat_completeness auto
termination
proof (relation "measure (\<lambda>(f, cur, s). length s)")
  show "wf (measure (\<lambda>(f, cur, s). length s))" by simp
next
  fix f :: "rune \<Rightarrow> bool" and cur :: "string option" and s :: string and d c
  assume "s \<noteq> []" and "d = DecodeRuneInString s"
  then show "((f, None, drop (snd d) s), (f, cur, s)) \<in> measure (\<lambda>(f, cur, s). length s)"
    using DecodeRuneInString_width [of s] by simp
next
  fix f :: "rune \<Rightarrow> bool" and cur :: "string option" and s :: string and d
  assume "s \<noteq> []" and "d = DecodeRuneInString s"
  then show "((f, None, drop (snd d) s), (f, cur, s)) \<in> measure (\<lambda>(f, cur, s). length s)"
    using DecodeRuneInString_width [of s] by simp
next
  fix f :: "rune \<Rightarrow> bool" and cur :: "string option" and s :: string and d
  assume "s \<noteq> []" and "d = DecodeRuneInString s"
  then show "((f, Some ((case cur of None \<Rightarrow> [] | Some c \<Rightarrow> c) @ take (snd d) s), drop (snd d) s),
              (f, cur, s)) \<in> measure (\<lambda>(f, cur, s). length s)"
    using DecodeRuneInString_width [of s] by simp
qed

declare FieldsLoop.simps [simp del]

definition FieldsFunc :: "(rune \<Rightarrow> bool) \<Rightarrow> string \<Rightarrow> string list" where
  "FieldsFunc f s = FieldsLoop f None s"

text \<open>
  \<open>strings.Fields\<close> splits around each run of white space, as defined by
  \<open>unicode.IsSpace\<close>: it is \<open>FieldsFunc(s, unicode.IsSpace)\<close> behind a fast path for ASCII.
\<close>

definition Fields :: "string \<Rightarrow> string list" where
  "Fields s = FieldsFunc IsSpace s"

subsection \<open>\<open>path.Base\<close>\<close>

text \<open>
  \<^verbatim>\<open>for len(path) > 0 && path[len(path)-1] == '/' { path = path[0 : len(path)-1] }\<close>
\<close>

function stripSlashes :: "string \<Rightarrow> string" where
  "stripSlashes p =
    (if p \<noteq> [] \<and> last p = CHR ''/'' then stripSlashes (butlast p) else p)"
  by pat_completeness auto
termination
  by (relation "measure length") auto

declare stripSlashes.simps [simp del]

text \<open>\<open>strings.LastIndexByte\<close>; \<open>None\<close> is Go's \<open>-1\<close>.\<close>

definition LastIndexByte :: "string \<Rightarrow> char \<Rightarrow> nat option" where
  "LastIndexByte s c =
    (if c \<in> set s then Some (length s - 1 - length (takeWhile (\<lambda>x. x \<noteq> c) (rev s)))
     else None)"

definition Base :: "string \<Rightarrow> string" where
  "Base path =
    (if path = [] then ''.''
     else let p1 = stripSlashes path;
              p2 = (case LastIndexByte p1 (CHR ''/'') of
                      Some i \<Rightarrow> drop (i + 1) p1
                    | None \<Rightarrow> p1)
          in if p2 = [] then ''/'' else p2)"

subsection \<open>\<open>filepath.Clean\<close> and \<open>filepath.Rel\<close> (Unix)\<close>

text \<open>
  The \<open>..\<close> case of \<open>Clean\<close> when it can backtrack:
  \<^verbatim>\<open>out.w--; for out.w > dotdot && !os.IsPathSeparator(out.index(out.w)) { out.w-- }\<close>
\<close>

function backtrackLoop :: "string \<Rightarrow> nat \<Rightarrow> nat \<Rightarrow> nat" where
  "backtrackLoop out dotdot w =
    (if w > dotdot \<and> out ! w \<noteq> CHR ''/'' then backtrackLoop out dotdot (w - 1) else w)"
  by pat_completeness auto
termination
  by (relation "measure (\<lambda>(out, dotdot, w). w)") auto

declare backtrackLoop.simps [simp del]

text \<open>
  The main loop of \<open>Clean\<close>. \<open>rest\<close> is \<open>path[r:]\<close>, \<open>out\<close> is the buffer \<open>out.buf[0:out.w]\<close>,
  \<open>dotdot\<close> the index in the buffer where \<open>..\<close> must stop.
\<close>

function cleanLoop :: "bool \<Rightarrow> string \<Rightarrow> string \<Rightarrow> nat \<Rightarrow> string" where
  "cleanLoop rooted rest out dotdot =
    (case rest of
       [] \<Rightarrow> out
     | c # t \<Rightarrow>
         if c = CHR ''/'' then cleanLoop rooted t out dotdot
         else if c = CHR ''.'' \<and> (t = [] \<or> hd t = CHR ''/'') then cleanLoop rooted t out dotdot
         else if c = CHR ''.'' \<and> hd t = CHR ''.'' \<and> (tl t = [] \<or> hd (tl t) = CHR ''/'') then
           (if length out > dotdot
            then cleanLoop rooted (tl t) (take (backtrackLoop out dotdot (length out - 1)) out) dotdot
            else if \<not> rooted
            then (let out' = (if length out > 0 then out @ ''/'' else out) @ ''..''
                  in cleanLoop rooted (tl t) out' (length out'))
            else cleanLoop rooted (tl t) out dotdot)
         else
           (let out' = (if rooted \<and> length out \<noteq> 1 \<or> \<not> rooted \<and> length out \<noteq> 0
                        then out @ ''/'' else out)
            in cleanLoop rooted (dropWhile (\<lambda>x. x \<noteq> CHR ''/'') rest)
                 (out' @ takeWhile (\<lambda>x. x \<noteq> CHR ''/'') rest) dotdot))"
  by pat_completeness auto
termination
  apply (relation "measure (\<lambda>(rooted, rest, out, dotdot). length rest)")
        apply (simp_all add: le_imp_less_Suc length_dropWhile_le)
  done

declare cleanLoop.simps [simp del]

definition Clean :: "string \<Rightarrow> string" where
  "Clean path =
    (if path = [] then ''.''
     else let rooted = (hd path = CHR ''/'');
              out = (if rooted then cleanLoop rooted (drop 1 path) ''/'' 1
                     else cleanLoop rooted path [] 0)
          in if out = [] then ''.'' else out)"

text \<open>\<^verbatim>\<open>for bi < bl && base[bi] != Separator { bi++ }\<close>\<close>

function scanElem :: "string \<Rightarrow> nat \<Rightarrow> nat" where
  "scanElem s i = (if i < length s \<and> s ! i \<noteq> CHR ''/'' then scanElem s (i + 1) else i)"
  by pat_completeness auto
termination
  by (relation "measure (\<lambda>(s, i). length s - i)") auto

declare scanElem.simps [simp del]

lemma scanElem_ge: "i \<le> scanElem s i"
proof (induction s i rule: scanElem.induct)
  case (1 s i)
  then show ?case
    by (subst scanElem.simps) (auto simp add: Suc_leD)
qed

text \<open>The Go slice \<open>s[i:j]\<close>.\<close>

definition slice :: "string \<Rightarrow> nat \<Rightarrow> nat \<Rightarrow> string" where
  "slice s i j = take (j - i) (drop i s)"

text \<open>
  The loop of \<open>Rel\<close> that positions \<open>base[b0:bi]\<close> and \<open>targ[t0:ti]\<close> at the first
  differing elements; it returns \<open>(b0, bi, t0, ti)\<close>.
\<close>

function relLoop :: "string \<Rightarrow> string \<Rightarrow> nat \<Rightarrow> nat \<Rightarrow> nat \<Rightarrow> nat \<Rightarrow> nat \<times> nat \<times> nat \<times> nat" where
  "relLoop base targ b0 bi t0 ti =
    (if bi < length base \<and> ti < length targ
     then let bi1 = scanElem base bi; ti1 = scanElem targ ti in
       if slice targ t0 ti1 \<noteq> slice base b0 bi1 then (b0, bi1, t0, ti1)
       else let bi2 = (if bi1 < length base then bi1 + 1 else bi1);
                ti2 = (if ti1 < length targ then ti1 + 1 else ti1)
            in relLoop base targ bi2 bi2 ti2 ti2
     else (b0, bi, t0, ti))"
  by pat_completeness auto
termination
  apply (relation "measure (\<lambda>(base, targ, b0, bi, t0, ti). length base - bi)")
   apply simp
  subgoal for base targ b0 bi t0 ti
    using scanElem_ge [of bi base] by auto
  done

declare relLoop.simps [simp del]

definition Count :: "string \<Rightarrow> char \<Rightarrow> nat" where
  "Count s c = length (filter (\<lambda>x. x = c) s)"

definition Rel :: "string \<Rightarrow> string \<Rightarrow> error + string" where
  "Rel basepath targpath =
    (let base = Clean basepath; targ = Clean targpath;
         err = ErrorString (''Rel: can't make '' @ targpath @ '' relative to '' @ basepath)
     in if targ = base then Inr ''.''
     else let base = (if base = ''.'' then [] else base);
              baseSlashed = (length base > 0 \<and> base ! 0 = CHR ''/'');
              targSlashed = (length targ > 0 \<and> targ ! 0 = CHR ''/'')
       in if baseSlashed \<noteq> targSlashed then Inl err
       else let bl = length base; tl' = length targ;
                (b0, bi, t0, ti) = relLoop base targ 0 0 0 0
         in if slice base b0 bi = ''..'' then Inl err
         else if b0 \<noteq> bl
           then let seps = Count (slice base b0 bl) (CHR ''/'')
                in Inr (''..'' @ concat (replicate seps ''/..'')
                        @ (if t0 \<noteq> tl' then ''/'' @ drop t0 targ else []))
           else Inr (drop t0 targ))"

subsection \<open>The \<open>flag\<close> parser\<close>

text \<open>
  The flag set of \<open>run\<close> has one flag, the string flag \<open>o\<close>, and error handling
  \<open>flag.ExitOnError\<close>. \<open>outputVar\<close> is the variable \<open>output\<close> the flag sets, \<open>fargs\<close> the arguments
  left after the flags (\<open>fs.Args()\<close>).
\<close>

record FlagSet =
  outputVar :: string
  fargs :: "string list"

definition usage :: string where
  \<open>usage =
    ''Usage: genpkgbuild-go <import-path> [-o <output>]\<newline>'' @
    ''\<newline>'' @
    ''Specify Go import path as the argument.\<newline>'' @
    ''\<newline>'' @
    ''e.g. genpkgbuild-go golang.org/x/tools/godoc\<newline>'' @
    ''\<newline>'' @
    ''The output filename can be specified with -o flag. The default is PKGBUILD.\<newline>'' @
    ''Specify "-" to write STDOUT instead of an actual file.''\<close>

text \<open>
  \<open>fs.Usage\<close> as \<open>run\<close> sets it: \<open>fmt.Fprintln(os.Stderr, usage); fmt.Fprintln(os.Stderr)\<close>.
\<close>

definition fsUsage :: string where
  "fsUsage = usage @ ''\<newline>'' @ ''\<newline>''"

text \<open>\<open>FlagSet.failf\<close>: prints the error, then the usage; the text that reaches stderr.\<close>

definition failf :: "string \<Rightarrow> string" where
  "failf msg = msg @ ''\<newline>'' @ fsUsage"

text \<open>
  The search for \<open>=\<close> in a flag name, from index 1:
  the name, whether a value was attached, and the value.
\<close>

definition splitFlag :: "string \<Rightarrow> string \<times> bool \<times> string" where
  "splitFlag name =
    (if CHR ''='' \<in> set (drop 1 name)
     then let i = 1 + length (takeWhile (\<lambda>x. x \<noteq> CHR ''='') (drop 1 name))
          in (take i name, True, drop (i + 1) name)
     else (name, False, []))"

text \<open>
  \<open>FlagSet.Parse\<close>, the loop over \<open>parseOne\<close>. Under \<open>ExitOnError\<close> a failure ends the
  process: \<open>Inl (code, text)\<close> is \<open>os.Exit(code)\<close> after \<open>text\<close> was written to stderr
  (code 0 for \<open>-h\<close> and \<open>-help\<close>, 2 otherwise).
\<close>

fun Parse :: "FlagSet \<Rightarrow> string list \<Rightarrow> (int \<times> string) + FlagSet" where
  "Parse f [] = Inr (f\<lparr>fargs := []\<rparr>)"
| "Parse f (s # rest) =
    (if length s < 2 \<or> s ! 0 \<noteq> CHR ''-'' then Inr (f\<lparr>fargs := s # rest\<rparr>)
     else let numMinuses = (if s ! 1 = CHR ''-'' then 2 else 1 :: nat) in
       if numMinuses = 2 \<and> length s = 2 then Inr (f\<lparr>fargs := rest\<rparr>)
       else let name = drop numMinuses s in
         if length name = 0 \<or> name ! 0 = CHR ''-'' \<or> name ! 0 = CHR ''=''
         then Inl (2, failf (''bad flag syntax: '' @ s))
         else let sp = splitFlag name; name' = fst sp; hasValue = fst (snd sp);
                  value = snd (snd sp) in
           if name' \<noteq> ''o''
           then (if name' = ''help'' \<or> name' = ''h'' then Inl (0, fsUsage)
                 else Inl (2, failf (''flag provided but not defined: -'' @ name')))
           else if hasValue then Parse (f\<lparr>outputVar := value\<rparr>) rest
           else (case rest of
                   [] \<Rightarrow> Inl (2, failf (''flag needs an argument: -'' @ name'))
                 | v # rest' \<Rightarrow> Parse (f\<lparr>outputVar := v\<rparr>) rest'))"

lemma Parse_fargs_length: "Parse f xs = Inr f' \<Longrightarrow> length (fargs f') \<le> length xs"
proof (induction f xs arbitrary: f' rule: Parse.induct)
  case (1 f)
  then show ?case by auto
next
  case (2 f s rest)
  show ?case
  proof (cases "length s < 2 \<or> s ! 0 \<noteq> CHR ''-''")
    case True
    with "2.prems" show ?thesis by auto
  next
    case False
    with "2.prems" "2.IH" show ?thesis
      by (auto simp add: Let_def le_Suc_eq split: if_splits list.splits)
  qed
qed

text \<open>
  The loop of \<open>run\<close> that collects the positional arguments:
  \<^verbatim>\<open>for fs.NArg() > 0 { args = append(args, fs.Args()[0]); fs.Parse(fs.Args()[1:]) }\<close>
\<close>

function collectArgs :: "FlagSet \<Rightarrow> string list \<Rightarrow> (int \<times> string) + (string list \<times> FlagSet)" where
  "collectArgs f args =
    (case fargs f of
       [] \<Rightarrow> Inr (args, f)
     | a # rest \<Rightarrow>
         (case Parse f rest of
            Inl x \<Rightarrow> Inl x
          | Inr f' \<Rightarrow> collectArgs f' (args @ [a])))"
  by pat_completeness auto
termination
  apply (relation "measure (\<lambda>(f, args). length (fargs f))")
   apply simp
  subgoal for f args a rest f'
    using Parse_fargs_length [of f rest f'] by simp
  done

declare collectArgs.simps [simp del]

subsection \<open>The outcome of a run, the environment and the state\<close>

text \<open>
  \<open>run\<close> returns an error or nil, or does not return: an index out of range panics,
  and the flag parser exits the process.
\<close>

datatype outcome = Returned "error option" | Panicked string | Exited int

text \<open>
  The closure of \<open>run\<close> that parses the command line (lines 107 to 126). The third call
  of \<open>Parse\<close> parses \<open>os.Args[1:]\<close> again, so a leading \<open>-o\<close> wins over one given
  after the import path. The result is the positional arguments and the output path, or how the
  process ended and what it wrote to stderr.
\<close>

definition parseArgs :: "string list \<Rightarrow> (outcome \<times> string) + (string list \<times> string)" where
  "parseArgs osArgs =
    (if osArgs = [] then Inl (Panicked ''runtime error: slice bounds out of range [1:0]'', [])
     else case Parse \<lparr>outputVar = ''PKGBUILD'', fargs = []\<rparr> (drop 1 osArgs) of
       Inl (c, t) \<Rightarrow> Inl (Exited c, t)
     | Inr f1 \<Rightarrow>
         (case collectArgs f1 [] of
            Inl (c, t) \<Rightarrow> Inl (Exited c, t)
          | Inr (args, f2) \<Rightarrow>
              (case Parse f2 (drop 1 osArgs) of
                 Inl (c, t) \<Rightarrow> Inl (Exited c, t)
               | Inr f3 \<Rightarrow> Inr (args, outputVar f3))))"

text \<open>\<open>vcs.RepoRoot\<close>, with the one field of \<open>VCS\<close> that \<open>run\<close> reads.\<close>

record RepoRoot =
  VCSName :: string
  Repo :: string
  Root :: string

text \<open>
  What \<open>cmd.Output()\<close> gives: the bytes of standard output; or an \<open>*exec.ExitError\<close>
  with the captured standard error and its message; or another error.
\<close>

datatype cmdResult = CmdOutput string | CmdExitError string string | CmdOtherError error

text \<open>
  The environment of a run: everything the program asks of the operating system, the
  network and the user, fixed before the run.
  \<^item> \<open>Args\<close>: \<open>os.Args\<close>, program name first;
  \<^item> \<open>openTTY\<close>: the error of opening \<open>/dev/tty\<close>, if any;
  \<^item> \<open>createErr\<close>: for a path that does not exist, why it cannot be created, if so;
  \<^item> \<open>writeLimit\<close>: \<open>Some (n, e)\<close> when the destination accepts \<open>n\<close> bytes and then
    fails every write with \<open>e\<close> (a full disk, a closed pipe);
  \<^item> \<open>RepoRootForImportPath\<close>: the resolver of \<open>golang.org/x/tools/go/vcs\<close>;
  \<^item> \<open>TempDir\<close>, \<open>Create\<close>, \<open>Output\<close>: the results of \<open>ioutil.TempDir\<close>, of the clone
    \<open>repoRoot.VCS.Create\<close> and of the version command.
\<close>

record world =
  Args :: "string list"
  openTTY :: "error option"
  createErr :: "string \<Rightarrow> string option"
  writeLimit :: "(nat \<times> error) option"
  RepoRootForImportPath :: "string \<Rightarrow> error + RepoRoot"
  TempDir :: "error option"
  Create :: "RepoRoot \<Rightarrow> error option"
  Output :: "RepoRoot \<Rightarrow> cmdResult"

text \<open>The two channels of \<open>run\<close>.\<close>

datatype chan = ErrC | VersionC

text \<open>
  The state a run changes.
  \<^item> \<open>files\<close>: the paths that exist, with their contents;
  \<^item> \<open>stdout\<close>, \<open>stderr\<close>, \<open>ttyOut\<close>: the bytes written to standard output, to standard
    error and to the terminal (the writer \<open>w\<close>);
  \<^item> \<open>scn\<close>: the lines the scanner \<open>scn\<close> has yet to deliver, without their line ends;
    \<open>scnErr\<close>: the error the scanner meets after them, \<open>None\<close> for end of input;
  \<^item> \<open>recvs\<close>: the channel receives the orchestrator has performed, in order.
\<close>

record state =
  files :: "string \<rightharpoonup> string"
  stdout :: string
  stderr :: string
  ttyOut :: string
  scn :: "string list"
  scnErr :: "error option"
  recvs :: "chan list"

text \<open>
  Writing to the terminal (\<open>fmt.Fprint(w, ...)\<close>), writing to standard error
  (\<open>fmt.Fprintln(os.Stderr, ...)\<close>, \<open>os.Stderr.Write\<close>), and a receive from a channel.
\<close>

definition FprintTTY :: "string \<Rightarrow> state \<Rightarrow> state" where
  "FprintTTY bytes st = st\<lparr>ttyOut := ttyOut st @ bytes\<rparr>"

definition FprintStderr :: "string \<Rightarrow> state \<Rightarrow> state" where
  "FprintStderr bytes st = st\<lparr>stderr := stderr st @ bytes\<rparr>"

definition receive :: "chan \<Rightarrow> state \<Rightarrow> state" where
  "receive c st = st\<lparr>recvs := recvs st @ [c]\<rparr>"

lemma FprintTTY_fields [simp]:
  "files (FprintTTY b st) = files st"
  "stdout (FprintTTY b st) = stdout st"
  "stderr (FprintTTY b st) = stderr st"
  "ttyOut (FprintTTY b st) = ttyOut st @ b"
  "scn (FprintTTY b st) = scn st"
  "scnErr (FprintTTY b st) = scnErr st"
  "recvs (FprintTTY b st) = recvs st"
  by (simp_all add: FprintTTY_def)

lemma FprintStderr_fields [simp]:
  "files (FprintStderr b st) = files st"
  "stdout (FprintStderr b st) = stdout st"
  "stderr (FprintStderr b st) = stderr st @ b"
  "ttyOut (FprintStderr b st) = ttyOut st"
  "scn (FprintStderr b st) = scn st"
  "scnErr (FprintStderr b st) = scnErr st"
  "recvs (FprintStderr b st) = recvs st"
  by (simp_all add: FprintStderr_def)

lemma receive_fields [simp]:
  "files (receive c st) = files st"
  "stdout (receive c st) = stdout st"
  "stderr (receive c st) = stderr st"
  "ttyOut (receive c st) = ttyOut st"
  "scn (receive c st) = scn st"
  "scnErr (receive c st) = scnErr st"
  "recvs (receive c st) = recvs st @ [c]"
  by (simp_all add: receive_def)

subsection \<open>The template \<open>tmpl\<close> and the escaper of \<open>html/template\<close>\<close>

text \<open>
  \<open>htmlReplacementTable\<close> of \<open>html/template\<close>: the runes that are replaced in a text
  node. NUL becomes U+FFFD (three bytes in UTF-8).
\<close>

definition htmlReplacementTable :: "rune \<Rightarrow> string option" where
  \<open>htmlReplacementTable r =
    (if r = 0 then Some [CHR 0xEF, CHR 0xBF, CHR 0xBD]
     else if r = 0x22 then Some ''&#34;''
     else if r = 0x26 then Some ''&amp;''
     else if r = 0x27 then Some ''&#39;''
     else if r = 0x2B then Some ''&#43;''
     else if r = 0x3C then Some ''&lt;''
     else if r = 0x3E then Some ''&gt;''
     else None)\<close>

text \<open>
  \<open>htmlReplacer(s, htmlReplacementTable, true)\<close>: rune by rune, the replacement if the
  table has one, the bytes of the rune otherwise.
\<close>

function htmlReplacer :: "string \<Rightarrow> string" where
  "htmlReplacer s =
    (if s = [] then []
     else let d = DecodeRuneInString s in
       (case htmlReplacementTable (fst d) of
          Some repl \<Rightarrow> repl
        | None \<Rightarrow> take (snd d) s) @ htmlReplacer (drop (snd d) s))"
  by pat_completeness auto
termination
  apply (relation "measure length")
   apply simp
  subgoal for s d
    using DecodeRuneInString_width [of s] by simp
  done

declare htmlReplacer.simps [simp del]

text \<open>
  \<open>htmlEscaper\<close>, the function \<open>html/template\<close> adds to every action in a text node
  (the template has no \<open><\<close>, so every action of \<open>tmpl\<close> is in a text node). The fields
  are plain strings, so nothing is exempt.
\<close>

definition htmlEscaper :: "string \<Rightarrow> string" where
  "htmlEscaper s = htmlReplacer s"

record TmplData =
  PkgName :: string
  Dir :: string
  PkgVer :: string
  Repo :: string
  Root :: string
  Depends :: "string list"
  Path :: string
  BinName :: string

text \<open>
  \<^verbatim>\<open>{{range $i, $v := .Depends}}{{if $i}} {{end}}'{{.}}'{{end}}\<close>,
  from index \<open>i\<close> on.
\<close>

fun rangeDepends :: "nat \<Rightarrow> string list \<Rightarrow> string" where
  "rangeDepends i [] = []"
| "rangeDepends i (v # vs) =
    (if i \<noteq> 0 then '' '' else []) @ [CHR 0x27] @ htmlEscaper v @ [CHR 0x27]
      @ rangeDepends (i + 1) vs"

text \<open>Line 45 and line 50 of \<open>main.go\<close>, without their line ends.\<close>

definition tmplPkgverLine :: "TmplData \<Rightarrow> string" where
  "tmplPkgverLine d = ''pkgver='' @ htmlEscaper (PkgVer d)"

definition tmplDependsLine :: "TmplData \<Rightarrow> string" where
  "tmplDependsLine d = ''depends=('' @ rangeDepends 0 (Depends d) @ '')''"

text \<open>
  The head of the recipe, lines 43 to 53 of \<open>main.go\<close>. The comment action before it
  trims the white space on both of its sides, so the text starts at \<open>pkgname=\<close>.
\<close>

definition tmplHead :: "TmplData \<Rightarrow> string" where
  \<open>tmplHead d =
    ''pkgname='' @ htmlEscaper (PkgName d) @ ''\<newline>'' @
    ''_pkgname='' @ htmlEscaper (Dir d) @ ''\<newline>'' @
    tmplPkgverLine d @ ''\<newline>'' @
    ''pkgrel=1\<newline>'' @
    ''arch=('i686' 'x86_64')\<newline>'' @
    ''url='' @ [CHR 0x27] @ htmlEscaper (Repo d) @ [CHR 0x27] @ ''\<newline>'' @
    ''source=('git+git://'' @ htmlEscaper (TmplData.Root d) @ [CHR 0x27] @ '')'' @ ''\<newline>'' @
    tmplDependsLine d @ ''\<newline>'' @
    ''makedepends=('go')\<newline>'' @
    ''sha1sums=('SKIP')\<newline>'' @
    ''\<newline>''\<close>

text \<open>The function \<open>pkgver()\<close> of the recipe, lines 54 to 61: fixed text.\<close>

definition tmplPkgver :: string where
  \<open>tmplPkgver =
    ''pkgver() {\<newline>'' @
    ''  cd "$srcdir/$_pkgname"\<newline>'' @
    ''  ( set -o pipefail\<newline>'' @
    ''    git describe --long --tags 2>/dev/null | sed 's/'' @ [CHR 0x5C] @ ''([^-]*-g''
      @ [CHR 0x5C] @ '')/r'' @ [CHR 0x5C] @ ''1/;s/-/./g' ||\<newline>'' @
    ''    printf "r%s.%s" "$(git rev-list --count HEAD)" "$(git rev-parse --short HEAD)"\<newline>'' @
    ''  )\<newline>'' @
    ''}\<newline>'' @
    ''\<newline>''\<close>

text \<open>The functions \<open>build()\<close> and \<open>package()\<close>, lines 62 to 70.\<close>

definition tmplBuild :: "TmplData \<Rightarrow> string" where
  \<open>tmplBuild d =
    ''build(){\<newline>'' @
    ''  cd "$srcdir/$_pkgname'' @ (if Path d \<noteq> [] then ''/'' @ htmlEscaper (Path d) else [])
      @ ''"\<newline>'' @
    ''  GO111MODULE=on go build -o "$srcdir/bin/'' @ htmlEscaper (BinName d) @ ''"\<newline>'' @
    ''}\<newline>'' @
    ''\<newline>'' @
    ''package() {\<newline>'' @
    ''  cd "$srcdir/bin"\<newline>'' @
    ''  install -Dm755 '' @ [CHR 0x27] @ htmlEscaper (BinName d) @ [CHR 0x27]
      @ '' "$pkgdir/usr/bin/'' @ htmlEscaper (BinName d) @ ''"\<newline>'' @
    ''}\<newline>''\<close>

text \<open>What \<open>tmpl.Execute\<close> writes for \<open>d\<close> when no write fails.\<close>

definition tmplText :: "TmplData \<Rightarrow> string" where
  "tmplText d = tmplHead d @ tmplPkgver @ tmplBuild d"

text \<open>
  The destination: \<open>os.Stdout\<close>, or the file \<open>run\<close> has created. \<open>WriteDest\<close> appends
  bytes to it.
\<close>

datatype dest = Stdout | File string

definition WriteDest :: "dest \<Rightarrow> string \<Rightarrow> state \<Rightarrow> state" where
  "WriteDest out bytes st =
    (case out of
       Stdout \<Rightarrow> st\<lparr>stdout := stdout st @ bytes\<rparr>
     | File p \<Rightarrow>
         st\<lparr>files := (files st)(p \<mapsto> (case files st p of None \<Rightarrow> [] | Some c \<Rightarrow> c) @ bytes)\<rparr>)"

lemma WriteDest_fields [simp]:
  "files (WriteDest Stdout b st) = files st"
  "files (WriteDest (File p) b st)
     = (files st)(p \<mapsto> (case files st p of None \<Rightarrow> [] | Some c \<Rightarrow> c) @ b)"
  "stdout (WriteDest Stdout b st) = stdout st @ b"
  "stdout (WriteDest (File p) b st) = stdout st"
  "stderr (WriteDest out b st) = stderr st"
  "ttyOut (WriteDest out b st) = ttyOut st"
  "scn (WriteDest out b st) = scn st"
  "scnErr (WriteDest out b st) = scnErr st"
  "recvs (WriteDest out b st) = recvs st"
  by (simp_all add: WriteDest_def split: dest.splits)

text \<open>
  \<open>tmpl.Execute(output, data)\<close>: the error it returns and the state after it. When the
  destination fails after \<open>n\<close> bytes, the first \<open>n\<close> bytes of the text are written and
  the write error is returned.
\<close>

definition tmplExecute :: "world \<Rightarrow> dest \<Rightarrow> TmplData \<Rightarrow> state \<Rightarrow> error option \<times> state" where
  "tmplExecute w out d st =
    (case writeLimit w of
       None \<Rightarrow> (None, WriteDest out (tmplText d) st)
     | Some (n, e) \<Rightarrow>
         if length (tmplText d) \<le> n then (None, WriteDest out (tmplText d) st)
         else (Some e, WriteDest out (take n (tmplText d)) st))"

subsection \<open>\<open>prompt\<close> and \<open>getVersion\<close>\<close>

text \<open>
  \<^verbatim>\<open>
  func prompt(p, dflt string) (string, error) {
      if dflt != "" { fmt.Fprintf(w, "%s: (%s) ", p, dflt) } else { fmt.Fprintf(w, "%s: ", p) }
      if !scn.Scan() {
          if err := scn.Err(); err != nil { return "", fmt.Errorf("input error: %w", err) }
          return "", errors.New("interrupted")
      }
      v := strings.TrimSpace(scn.Text())
      if v == "" { v = dflt }
      return v, nil
  }\<close>
\<close>

definition prompt :: "string \<Rightarrow> string \<Rightarrow> state \<Rightarrow> (error + string) \<times> state" where
  "prompt p dflt st =
    (let st1 = FprintTTY (if dflt \<noteq> [] then p @ '': ('' @ dflt @ '') '' else p @ '': '') st
     in case scn st1 of
          [] \<Rightarrow>
            (case scnErr st1 of
               Some err \<Rightarrow> (Inl (WrapError ''input error: '' err), st1)
             | None \<Rightarrow> (Inl (ErrorString ''interrupted''), st1))
        | line # rest \<Rightarrow>
            (let v = TrimSpace line;
                 v = (if v = [] then dflt else v)
             in (Inr v, st1\<lparr>scn := rest\<rparr>)))"

text \<open>
  \<open>getVersion\<close>: what it writes to stderr (the captured standard error of a version
  command that exits non-zero), and what it returns.
\<close>

definition getVersion :: "world \<Rightarrow> RepoRoot \<Rightarrow> string \<times> (error + string)" where
  "getVersion w repoRoot =
    (case TempDir w of
       Some err \<Rightarrow> ([], Inl (WrapError ''could not secure a temp dir: '' err))
     | None \<Rightarrow>
         (case Create w repoRoot of
            Some err \<Rightarrow> ([], Inl (WrapError ''could not clone the repo: '' err))
          | None \<Rightarrow>
              (case Output w repoRoot of
                 CmdOutput version \<Rightarrow> ([], Inr (TrimSpace version))
               | CmdExitError errText msg \<Rightarrow> (errText, Inl (ErrorString msg))
               | CmdOtherError err \<Rightarrow> ([], Inl err))))"

subsection \<open>\<open>run\<close> and \<open>main\<close>\<close>

text \<open>
  Opening the destination, lines 131 to 139:
  \<^verbatim>\<open>
  if outputPath == "-" { output = os.Stdout } else {
      output, err = os.OpenFile(outputPath, os.O_RDWR|os.O_CREATE|os.O_EXCL, 0644)
      if err != nil { return err }
  }\<close>
  With \<open>O_CREATE|O_EXCL\<close> the call fails when the path exists; otherwise it creates an
  empty file, unless the environment refuses.
\<close>

definition openOutput :: "world \<Rightarrow> string \<Rightarrow> state \<Rightarrow> (error + dest) \<times> state" where
  "openOutput w outputPath st =
    (if outputPath = ''-'' then (Inr Stdout, st)
     else case files st outputPath of
       Some c \<Rightarrow> (Inl (PathError ''open'' outputPath ''file exists''), st)
     | None \<Rightarrow>
         (case createErr w outputPath of
            Some msg \<Rightarrow> (Inl (PathError ''open'' outputPath msg), st)
          | None \<Rightarrow> (Inr (File outputPath), st\<lparr>files := (files st)(outputPath \<mapsto> [])\<rparr>)))"

text \<open>
  The relative sub-path, lines 175 to 181:
  \<^verbatim>\<open>
  relPath, err := filepath.Rel(repoRoot.Root, importPath)
  if err != nil { return err }
  if relPath == "." { relPath = "" }\<close>
\<close>

definition relPathOf :: "string \<Rightarrow> string \<Rightarrow> error + string" where
  "relPathOf root importPath =
    (case Rel root importPath of
       Inl err \<Rightarrow> Inl err
     | Inr relPath \<Rightarrow> Inr (if relPath = ''.'' then [] else relPath))"

text \<open>
  The second half of \<open>run\<close>, from the \<open>go\<close> statement on (lines 155 to 210). The
  goroutine computes \<open>getVersion(repoRoot)\<close>, then sends the error on \<open>errC\<close> and the
  version on \<open>versionC\<close>; both channels are unbuffered. The orchestrator prompts, and
  then receives: \<open>recvs\<close> records each receive. The fetch is taken to return: a
  fetch that hangs would block the receive from \<open>errC\<close> for ever. What the goroutine
  writes to stderr is added just before the receive from \<open>errC\<close>, the first moment the
  orchestrator is ordered after it; in a run that returns before that receive, whether
  the goroutine has written by then is open, and its text is left out. The value
  \<open>tmpl.Execute\<close> returns is dropped, as in the source.
\<close>

definition orchestrate :: "world \<Rightarrow> string \<Rightarrow> dest \<Rightarrow> RepoRoot \<Rightarrow> state \<Rightarrow> outcome \<times> state" where
  "orchestrate w importPath out repoRoot st =
    (let fetched = getVersion w repoRoot;
         baseName = Base (RepoRoot.Root repoRoot)
     in case prompt ''Package Name'' (baseName @ ''-git'') st of
       (Inl err, st) \<Rightarrow> (Returned (Some err), st)
     | (Inr pkgName, st) \<Rightarrow>
     (case prompt ''Dependent Packages(split by space)'' [] st of
       (Inl err, st) \<Rightarrow> (Returned (Some err), st)
     | (Inr dependsList, st) \<Rightarrow>
     (let depends = Fields dependsList
      in case relPathOf (RepoRoot.Root repoRoot) importPath of
       Inl err \<Rightarrow> (Returned (Some err), st)
     | Inr relPath \<Rightarrow>
     (case prompt ''Binary name to be installed'' (Base importPath) st of
       (Inl err, st) \<Rightarrow> (Returned (Some err), st)
     | (Inr binName, st) \<Rightarrow>
     (let st = FprintTTY ''Please wait...'' st;
          st = receive ErrC (FprintStderr (fst fetched) st)
      in case snd fetched of
       Inl err \<Rightarrow> (Returned (Some err), st)
     | Inr version \<Rightarrow>
     (let st = receive VersionC st;
          st = (if out = Stdout then FprintTTY ''===========================\<newline>'' st else st);
          st = FprintTTY ''\<newline>'' st;
          executed = tmplExecute w out
            \<lparr>PkgName = pkgName, Dir = baseName, PkgVer = version, Repo = RepoRoot.Repo repoRoot,
             Root = RepoRoot.Root repoRoot, Depends = depends, Path = relPath,
             BinName = binName\<rparr> st
      in (Returned None, snd executed)))))))"

text \<open>
  \<open>run\<close>, lines 98 to 153, then \<open>orchestrate\<close>. The check \<open>len(os.Args) < 2\<close> reads
  \<open>os.Args\<close>, the index \<open>args[0]\<close> the positional arguments.
\<close>

definition run :: "world \<Rightarrow> state \<Rightarrow> outcome \<times> state" where
  "run w st =
    (case openTTY w of
       Some err \<Rightarrow> (Returned (Some (WrapError ''could not open TTY: '' err)), st)
     | None \<Rightarrow>
     (case parseArgs (Args w) of
       Inl (ended, text) \<Rightarrow> (ended, FprintStderr text st)
     | Inr (args, outputPath) \<Rightarrow>
     (case openOutput w outputPath st of
       (Inl err, st) \<Rightarrow> (Returned (Some err), st)
     | (Inr out, st) \<Rightarrow>
     (if length (Args w) < 2
      then (Returned (Some (IncorrectUsageError (ErrorString ''specify import path''))), st)
      else case args of
       [] \<Rightarrow> (Panicked ''runtime error: index out of range [0] with length 0'', st)
     | importPath # _ \<Rightarrow>
     (case RepoRootForImportPath w importPath of
       Inl err \<Rightarrow>
         (Returned (Some (WrapError ''can't get root repo for the import path: '' err)), st)
     | Inr repoRoot \<Rightarrow>
     (if VCSName repoRoot \<noteq> ''Git''
      then (Returned (Some (ErrorString
              (''sorry, not git repo is not supported yet: '' @ VCSName repoRoot))), st)
      else orchestrate w importPath out repoRoot st))))))"

text \<open>
  \<open>main\<close>: the exit status of the process and the final state.
  \<^verbatim>\<open>
  if err := run(); err != nil {
      fmt.Fprintln(os.Stderr, err)
      if errors.As(err, new(IncorrectUsageError)) {
          fmt.Fprintln(os.Stderr); fmt.Fprintln(os.Stderr, usage); fmt.Fprintln(os.Stderr)
      }
      os.Exit(1)
  }\<close>
  A panic ends the process with status 2, after the runtime has printed the panic
  (its stack trace is left out).
\<close>

definition main :: "world \<Rightarrow> state \<Rightarrow> int \<times> state" where
  "main w st =
    (case run w st of
       (Returned None, st) \<Rightarrow> (0, st)
     | (Returned (Some err), st) \<Rightarrow>
         (1, FprintStderr (Error err @ ''\<newline>'' @
               (if AsIncorrectUsageError err
                then ''\<newline>'' @ usage @ ''\<newline>'' @ ''\<newline>'' else [])) st)
     | (Panicked msg, st) \<Rightarrow> (2, FprintStderr (''panic: '' @ msg @ ''\<newline>'') st)
     | (Exited code, st) \<Rightarrow> (code, st))"

subsection \<open>The goroutine and its channels\<close>

text \<open>
  The goroutine of \<open>run\<close> (lines 157 to 161) sends on \<open>errC\<close>, then on \<open>versionC\<close>:
  \<^verbatim>\<open>go func() { version, err := getVersion(repoRoot); errC <- err; versionC <- version }()\<close>
\<close>

definition goroutineSends :: "chan list" where
  "goroutineSends = [ErrC, VersionC]"

text \<open>
  Both channels are unbuffered: a send completes when the other side receives from the
  same channel, and blocks until then. \<open>rendezvous sends recvs\<close> are the communications
  that complete when one side performs \<open>sends\<close> in order and the other \<open>recvs\<close> in order.
\<close>

fun rendezvous :: "chan list \<Rightarrow> chan list \<Rightarrow> chan list" where
  "rendezvous (s # ss) (r # rs) = (if s = r then s # rendezvous ss rs else [])"
| "rendezvous _ _ = []"

text \<open>
  The receives a run performs after the fork, by case: none when a prompt or the
  relative path fails, the one from \<open>errC\<close> when the fetch fails, both otherwise.
\<close>

definition joined :: "world \<Rightarrow> string \<Rightarrow> RepoRoot \<Rightarrow> state \<Rightarrow> chan list" where
  "joined w importPath repoRoot st =
    (if length (scn st) < 3 \<or> isl (relPathOf (RepoRoot.Root repoRoot) importPath) then []
     else if isl (snd (getVersion w repoRoot)) then [ErrC]
     else [ErrC, VersionC])"

subsection \<open>The values a recipe is rendered from\<close>

definition fieldValues :: "TmplData \<Rightarrow> string set" where
  "fieldValues d =
    {PkgName d, Dir d, PkgVer d, Repo d, TmplData.Root d, Path d, BinName d}
      \<union> set (Depends d)"

subsection \<open>Example environments and states\<close>

text \<open>A state with no files and nothing written, in which the terminal delivers \<open>ls\<close>.\<close>

definition st_ex :: "string list \<Rightarrow> state" where
  "st_ex ls = \<lparr>files = Map.empty, stdout = [], stderr = [], ttyOut = [], scn = ls,
     scnErr = None, recvs = []\<rparr>"

text \<open>
  The example of the README: the import path resolves to a Git repository, the clone
  and the version command succeed, every file can be created and written.
\<close>

definition golint :: RepoRoot where
  "golint = \<lparr>VCSName = ''Git'', RepoRoot.Repo = ''https://github.com/golang/lint'',
     RepoRoot.Root = ''github.com/golang/lint''\<rparr>"

definition w_ex :: "string list \<Rightarrow> world" where
  "w_ex args = \<lparr>Args = args, openTTY = None, createErr = (\<lambda>p. None), writeLimit = None,
     RepoRootForImportPath = (\<lambda>p. Inr golint), TempDir = None, Create = (\<lambda>r. None),
     Output = (\<lambda>r. CmdOutput ''r179.414d861\<newline>'')\<rparr>"

text \<open>The same with standard output as the destination, and standard output full.\<close>

definition w_full :: world where
  "w_full = (w_ex [''genpkgbuild-go'', ''-o'', ''-'', ''github.com/golang/lint/golint''])
     \<lparr>writeLimit := Some (0, ErrorString ''write /dev/stdout: no space left on device'')\<rparr>"

text \<open>The same with a clone that fails.\<close>

definition w_noclone :: world where
  "w_noclone = (w_ex [''genpkgbuild-go'', ''github.com/golang/lint/golint''])
     \<lparr>Create := (\<lambda>r. Some (ErrorString ''exit status 128''))\<rparr>"

text \<open>An import path that resolves to a Mercurial repository.\<close>

definition w_hg :: world where
  "w_hg = (w_ex [''genpkgbuild-go'', ''example.org/hg/tool''])
     \<lparr>RepoRootForImportPath := (\<lambda>p. Inr \<lparr>VCSName = ''Mercurial'',
        RepoRoot.Repo = ''https://example.org/hg/tool'',
        RepoRoot.Root = ''example.org/hg/tool''\<rparr>)\<rparr>"

text \<open>A record with two values that hold characters special to HTML.\<close>

definition d_amp :: TmplData where
  "d_amp = \<lparr>PkgName = ''a&b'', Dir = ''lint'', PkgVer = ''r1.abcdef0'',
     Repo = ''https://github.com/golang/lint'', Root = ''github.com/golang/lint'',
     Depends = [''<x>''], Path = [], BinName = ''golint''\<rparr>"

subsection \<open>Auxiliary definitions\<close>

text \<open>
  A decoding step whose first byte is not ASCII: the rune is not ASCII either, and
  every byte the step consumes is at least \<open>0x80\<close>.
\<close>

definition high_step :: "string \<Rightarrow> bool" where
  "high_step s \<longleftrightarrow>
    (let d = DecodeRuneInString s in
     128 \<le> fst d \<and> 1 \<le> snd d \<and> snd d \<le> length s
     \<and> (\<forall>i < snd d. 128 \<le> (of_char (s ! i) :: nat)))"

text \<open>
  The record \<open>run\<close> renders once the three prompts, the relative path and the fetch have
  succeeded, from the three lines \<open>l1\<close>, \<open>l2\<close>, \<open>l3\<close> the user has entered.
\<close>

definition rendered :: "RepoRoot \<Rightarrow> string \<Rightarrow> string \<Rightarrow> string \<Rightarrow> string \<Rightarrow> string \<Rightarrow> string \<Rightarrow> TmplData" where
  "rendered repoRoot importPath relPath version l1 l2 l3 =
    \<lparr>PkgName = (if TrimSpace l1 = [] then Base (RepoRoot.Root repoRoot) @ ''-git''
                 else TrimSpace l1),
     Dir = Base (RepoRoot.Root repoRoot), PkgVer = version,
     Repo = RepoRoot.Repo repoRoot, Root = RepoRoot.Root repoRoot,
     Depends = Fields (if TrimSpace l2 = [] then [] else TrimSpace l2),
     Path = relPath,
     BinName = (if TrimSpace l3 = [] then Base importPath else TrimSpace l3)\<rparr>"

text \<open>The table \<open>asciiSpace\<close> of the package \<open>strings\<close>: the ASCII white space.\<close>

definition asciiSpace :: "char set" where
  "asciiSpace = {CHR 0x09, CHR 0x0A, CHR 0x0B, CHR 0x0C, CHR 0x0D, CHR 0x20}"

text \<open>
  A path element: not empty, without a separator, and neither \<open>.\<close> nor \<open>..\<close>.
  \<open>joinPath\<close> joins elements with separators.
\<close>

definition element :: "string \<Rightarrow> bool" where
  "element c \<longleftrightarrow> c \<noteq> [] \<and> CHR ''/'' \<notin> set c \<and> c \<noteq> ''.'' \<and> c \<noteq> ''..''"

fun joinPath :: "string list \<Rightarrow> string" where
  "joinPath [] = []"
| "joinPath [c] = c"
| "joinPath (c # cs) = c @ ''/'' @ joinPath cs"

text \<open>
  A word: a non-empty string of ASCII characters that are not white space. \<open>spaced\<close>
  puts one space between the strings of a list, \<open>quoted\<close> puts an escaped value between
  single quotes.
\<close>

definition word :: "string \<Rightarrow> bool" where
  "word w \<longleftrightarrow> w \<noteq> [] \<and> (\<forall>c \<in> set w. (of_char c :: nat) < 128 \<and> \<not> IsSpace (of_char c))"

fun spaced :: "string list \<Rightarrow> string" where
  "spaced [] = []"
| "spaced [x] = x"
| "spaced (x # xs) = x @ '' '' @ spaced xs"

definition quoted :: "string \<Rightarrow> string" where
  "quoted v = [CHR 0x27] @ htmlEscaper v @ [CHR 0x27]"

section \<open>Properties\<close>

subsection \<open>Evaluation rules\<close>

lemmas utf8_eval = DecodeRuneInString_def DecodeLastRuneInString_def first_def RuneError_def
  RuneSelf_def RuneStart_def IsSpace_def Let_def findStart.simps

lemmas strings_eval = TrimSpace_def TrimFunc_def TrimRightFunc_def TrimLeftFunc.simps
  lastIndexFunc.simps Fields_def FieldsFunc_def FieldsLoop.simps

lemmas path_eval = Base_def stripSlashes.simps LastIndexByte_def Clean_def cleanLoop.simps
  backtrackLoop.simps Rel_def relLoop.simps scanElem.simps slice_def Count_def relPathOf_def

lemmas html_eval = htmlEscaper_def htmlReplacer.simps htmlReplacementTable_def

lemmas flag_eval = parseArgs_def collectArgs.simps splitFlag_def failf_def fsUsage_def

lemmas run_eval = run_def main_def orchestrate_def openOutput_def prompt_def getVersion_def
  tmplExecute_def

lemmas tmpl_eval = tmplText_def tmplHead_def tmplPkgver_def tmplBuild_def tmplPkgverLine_def
  tmplDependsLine_def

lemmas world_eval = w_ex_def w_full_def w_noclone_def w_hg_def golint_def st_ex_def

subsection \<open>Decoding steps\<close>

lemma first_bounds:
  "first b = AS \<longleftrightarrow> b < 128"
  "first b = S1 \<longleftrightarrow> 194 \<le> b \<and> b < 224"
  "first b = S2 \<longleftrightarrow> b = 224"
  "first b = S3 \<longleftrightarrow> 225 \<le> b \<and> b < 240 \<and> b \<noteq> 237"
  "first b = S4 \<longleftrightarrow> b = 237"
  "first b = S5 \<longleftrightarrow> b = 240"
  "first b = S6 \<longleftrightarrow> 241 \<le> b \<and> b < 244"
  "first b = S7 \<longleftrightarrow> b = 244"
  by (auto simp add: first_def)

lemma mod_window:
  assumes "k * m \<le> x" and "x < k * m + m"
  shows "(x::nat) mod m = x - k * m"
proof -
  have "x = (x - k * m) + k * m" using assms by simp
  then have "x mod m = (x - k * m) mod m" by (metis mod_mult_self1)
  also have "\<dots> = x - k * m" using assms by simp
  finally show ?thesis .
qed

lemma DecodeRune_ascii:
  "(of_char a :: nat) < 128 \<Longrightarrow> DecodeRuneInString (a # t) = (of_char a, 1)"
  by (simp add: DecodeRuneInString_def first_def Let_def)

lemma less2: "(i::nat) < 2 \<longleftrightarrow> i = 0 \<or> i = 1"
  by auto

lemma less3: "(i::nat) < 3 \<longleftrightarrow> i = 0 \<or> i = 1 \<or> i = 2"
  by auto

lemma less4: "(i::nat) < 4 \<longleftrightarrow> i = 0 \<or> i = 1 \<or> i = 2 \<or> i = 3"
  by auto


lemmas decode_unfold = high_step_def DecodeRuneInString_def Let_def RuneError_def

lemma high_XX:
  assumes "first (of_char a) = XX"
  shows "high_step (a # t)"
  using assms by (simp add: decode_unfold first_def split: if_splits)

lemma high_S1:
  assumes "first (of_char a) = S1"
  shows "high_step (a # t)"
proof -
  have b: "194 \<le> (of_char a :: nat)" "(of_char a :: nat) < 224"
    using assms by (simp_all add: first_bounds)
  then have m: "2 \<le> (of_char a :: nat) mod 32"
    using mod_window [of 6 32 "of_char a"] by simp
  show ?thesis
  proof (cases t)
    case Nil
    then show ?thesis using assms b by (simp add: decode_unfold)
  next
    case (Cons b' u)
    then show ?thesis using assms b m by (simp add: decode_unfold less2)
  qed
qed

lemma high_3:
  assumes "first (of_char a) = S2 \<or> first (of_char a) = S3 \<or> first (of_char a) = S4"
  shows "high_step (a # t)"
proof -
  have b: "224 \<le> (of_char a :: nat)" "(of_char a :: nat) < 240"
    using assms by (auto simp add: first_bounds)
  have sz: "seq_size (first (of_char a)) = 3" and nA: "first (of_char a) \<noteq> AS"
    and nX: "first (of_char a) \<noteq> XX"
    using assms by auto
  have m: "first (of_char a) \<noteq> S2 \<Longrightarrow> 1 \<le> (of_char a :: nat) mod 16"
    using assms mod_window [of 14 16 "of_char a"] by (auto simp add: first_bounds)
  have lo: "first (of_char a) = S2 \<Longrightarrow> fst (acceptRanges (first (of_char a))) = 160"
    by simp
  have lo': "128 \<le> fst (acceptRanges (first (of_char a)))"
    and hi: "snd (acceptRanges (first (of_char a))) \<le> 191"
    using assms by auto
  show ?thesis
  proof (cases t)
    case Nil
    then show ?thesis using sz nA nX b by (simp add: decode_unfold)
  next
    case c1: (Cons b1 u)
    show ?thesis
    proof (cases u)
      case Nil
      then show ?thesis using c1 sz nA nX b by (simp add: decode_unfold)
    next
      case (Cons b2 v)
      show ?thesis
      proof (cases "(of_char b1 :: nat) < fst (acceptRanges (first (of_char a)))
                    \<or> snd (acceptRanges (first (of_char a))) < of_char b1")
        case True
        then show ?thesis using c1 Cons sz nA nX b by (simp add: decode_unfold)
      next
        case r1: False
        show ?thesis
        proof (cases "(of_char b2 :: nat) < 128 \<or> 191 < (of_char b2 :: nat)")
          case True
          then show ?thesis using r1 c1 Cons sz nA nX b by (simp add: decode_unfold)
        next
          case r2: False
          have "128 \<le> (of_char b1 :: nat)" using r1 lo' by simp
          moreover have "128 \<le> (of_char a :: nat) mod 16 * 4096 + of_char b1 mod 64 * 64
              + (of_char b2 :: nat) mod 64"
          proof (cases "first (of_char a) = S2")
            case True
            then have "32 \<le> (of_char b1 :: nat) mod 64"
              using r1 lo hi mod_window [of 2 64 "of_char b1"] by auto
            then show ?thesis by simp
          next
            case False
            then show ?thesis using m by simp
          qed
          ultimately show ?thesis
            using r1 r2 c1 Cons sz nA nX b by (simp add: decode_unfold less3)
        qed
      qed
    qed
  qed
qed

lemma high_4:
  assumes "first (of_char a) = S5 \<or> first (of_char a) = S6 \<or> first (of_char a) = S7"
  shows "high_step (a # t)"
proof -
  have b: "240 \<le> (of_char a :: nat)" "(of_char a :: nat) < 245"
    using assms by (auto simp add: first_bounds)
  have sz: "seq_size (first (of_char a)) = 4" and nA: "first (of_char a) \<noteq> AS"
    and nX: "first (of_char a) \<noteq> XX"
    using assms by auto
  have m: "first (of_char a) \<noteq> S5 \<Longrightarrow> 1 \<le> (of_char a :: nat) mod 8"
    using assms mod_window [of 30 8 "of_char a"] by (auto simp add: first_bounds)
  have lo: "first (of_char a) = S5 \<Longrightarrow> fst (acceptRanges (first (of_char a))) = 144"
    by simp
  have lo': "128 \<le> fst (acceptRanges (first (of_char a)))"
    and hi: "snd (acceptRanges (first (of_char a))) \<le> 191"
    using assms by auto
  show ?thesis
  proof (cases t)
    case Nil
    then show ?thesis using sz nA nX b by (simp add: decode_unfold)
  next
    case c1: (Cons b1 u)
    show ?thesis
    proof (cases u)
      case Nil
      then show ?thesis using c1 sz nA nX b by (simp add: decode_unfold)
    next
      case c2: (Cons b2 v)
      show ?thesis
      proof (cases v)
        case Nil
        then show ?thesis using c1 c2 sz nA nX b by (simp add: decode_unfold)
      next
        case (Cons b3 x)
        show ?thesis
        proof (cases "(of_char b1 :: nat) < fst (acceptRanges (first (of_char a)))
                      \<or> snd (acceptRanges (first (of_char a))) < of_char b1")
          case True
          then show ?thesis using c1 c2 Cons sz nA nX b by (simp add: decode_unfold)
        next
          case r1: False
          show ?thesis
          proof (cases "(of_char b2 :: nat) < 128 \<or> 191 < (of_char b2 :: nat)")
            case True
            then show ?thesis using r1 c1 c2 Cons sz nA nX b by (simp add: decode_unfold)
          next
            case r2: False
            show ?thesis
            proof (cases "(of_char b3 :: nat) < 128 \<or> 191 < (of_char b3 :: nat)")
              case True
              then show ?thesis
                using r1 r2 c1 c2 Cons sz nA nX b by (simp add: decode_unfold)
            next
              case r3: False
              have "128 \<le> (of_char b1 :: nat)" using r1 lo' by simp
              moreover have "128 \<le> (of_char a :: nat) mod 8 * 262144
                  + of_char b1 mod 64 * 4096 + of_char b2 mod 64 * 64
                  + (of_char b3 :: nat) mod 64"
              proof (cases "first (of_char a) = S5")
                case True
                then have "16 \<le> (of_char b1 :: nat) mod 64"
                  using r1 lo hi mod_window [of 2 64 "of_char b1"] by auto
                then show ?thesis by simp
              next
                case False
                then show ?thesis using m by simp
              qed
              ultimately show ?thesis
                using r1 r2 r3 c1 c2 Cons sz nA nX b by (simp add: decode_unfold less4)
            qed
          qed
        qed
      qed
    qed
  qed
qed

lemma high_step_all:
  assumes "128 \<le> (of_char a :: nat)"
  shows "high_step (a # t)"
proof (cases "first (of_char a)")
  case AS
  then show ?thesis using assms by (simp add: first_bounds)
next
  case XX
  then show ?thesis by (rule high_XX)
next
  case S1
  then show ?thesis by (rule high_S1)
qed (simp_all add: high_3 high_4)


lemma table_ascii: "htmlReplacementTable (of_char c) = Some e \<Longrightarrow> (of_char c :: nat) < 128"
  by (auto simp add: htmlReplacementTable_def split: if_splits)

lemma table_high: "128 \<le> r \<Longrightarrow> htmlReplacementTable r = None"
  by (simp add: htmlReplacementTable_def)

lemma htmlReplacer_Nil: "htmlReplacer [] = []"
  by (simp add: htmlReplacer.simps)

lemma htmlReplacer_ascii:
  "(of_char a :: nat) < 128 \<Longrightarrow>
   htmlReplacer (a # t) =
     (case htmlReplacementTable (of_char a) of Some repl \<Rightarrow> repl | None \<Rightarrow> [a])
       @ htmlReplacer t"
  by (subst htmlReplacer.simps) (simp add: DecodeRune_ascii split: option.splits)

lemma htmlReplacer_high:
  assumes "128 \<le> (of_char a :: nat)"
  obtains k where "1 \<le> k" "k \<le> length (a # t)"
    "\<forall>c \<in> set (take k (a # t)). 128 \<le> (of_char c :: nat)"
    "htmlReplacer (a # t) = take k (a # t) @ htmlReplacer (drop k (a # t))"
proof -
  let ?d = "DecodeRuneInString (a # t)"
  have h: "128 \<le> fst ?d" "1 \<le> snd ?d" "snd ?d \<le> length (a # t)"
    "\<forall>i < snd ?d. 128 \<le> (of_char ((a # t) ! i) :: nat)"
    using high_step_all [OF assms, of t] by (simp_all add: high_step_def Let_def)
  have "\<forall>c \<in> set (take (snd ?d) (a # t)). 128 \<le> (of_char c :: nat)"
  proof
    fix c assume "c \<in> set (take (snd ?d) (a # t))"
    then obtain i where "i < length (take (snd ?d) (a # t))" "take (snd ?d) (a # t) ! i = c"
      by (auto simp add: in_set_conv_nth)
    then show "128 \<le> (of_char c :: nat)"
      using h(3,4) by auto
  qed
  moreover have "htmlReplacer (a # t)
      = take (snd ?d) (a # t) @ htmlReplacer (drop (snd ?d) (a # t))"
    by (subst htmlReplacer.simps) (simp add: Let_def table_high [OF h(1)])
  ultimately show thesis
    using h(2,3) that by blast
qed

text \<open>The entity of a replaced character appears in the escaped string.\<close>

lemma htmlReplacer_entity:
  assumes "c \<in> set s" and "htmlReplacementTable (of_char c) = Some e"
  shows "\<exists>pre post. htmlReplacer s = pre @ e @ post"
  using assms(1)
proof (induction s rule: length_induct)
  case (1 s)
  then obtain a t where s: "s = a # t" by (cases s) auto
  show ?case
  proof (cases "(of_char a :: nat) < 128")
    case True
    show ?thesis
    proof (cases "c = a")
      case True
      then have "htmlReplacer s = [] @ e @ htmlReplacer t"
        using s assms(2) table_ascii [OF assms(2)] by (simp add: htmlReplacer_ascii)
      then show ?thesis by blast
    next
      case False
      then have "c \<in> set t" using "1.prems" s by simp
      then obtain pre post where "htmlReplacer t = pre @ e @ post"
        using "1.IH" s by auto
      then have "htmlReplacer s
          = ((case htmlReplacementTable (of_char a) of Some repl \<Rightarrow> repl | None \<Rightarrow> [a]) @ pre)
            @ e @ post"
        using s True by (simp add: htmlReplacer_ascii)
      then show ?thesis by blast
    qed
  next
    case False
    then have "128 \<le> (of_char a :: nat)" by simp
    then obtain k where k: "1 \<le> k" "k \<le> length (a # t)"
      "\<forall>c \<in> set (take k (a # t)). 128 \<le> (of_char c :: nat)"
      "htmlReplacer (a # t) = take k (a # t) @ htmlReplacer (drop k (a # t))"
      by (rule htmlReplacer_high)
    have "c \<notin> set (take k (a # t))"
      using k(3) table_ascii [OF assms(2)] by auto
    moreover have "c \<in> set (take k (a # t) @ drop k (a # t))"
      using "1.prems" s by simp
    ultimately have "c \<in> set (drop k (a # t))"
      by (simp only: set_append) blast
    moreover have "length (drop k (a # t)) < length s"
      using k(1) s by simp
    ultimately obtain pre post where "htmlReplacer (drop k (a # t)) = pre @ e @ post"
      using "1.IH" by blast
    then have "htmlReplacer s = (take k (a # t) @ pre) @ e @ post"
      using k(4) s by simp
    then show ?thesis by blast
  qed
qed


lemma table_repl_chars:
  assumes "htmlReplacementTable r = Some repl" and "htmlReplacementTable (of_char c) = Some e"
    and "c \<noteq> CHR ''&''"
  shows "c \<notin> set repl"
proof -
  have "(of_char c :: nat) = 38 \<Longrightarrow> c = CHR ''&''"
  proof -
    assume "(of_char c :: nat) = 38"
    then have "(of_char c :: nat) = of_char (CHR ''&'')" by simp
    then show ?thesis by (simp only: of_char_eq_iff)
  qed
  then have "(of_char c :: nat) \<in> {0, 0x22, 0x27, 0x2B, 0x3C, 0x3E}"
    using assms(2,3) by (auto simp add: htmlReplacementTable_def split: if_splits)
  moreover have "\<forall>x \<in> set repl. (of_char x :: nat) \<notin> {0, 0x22, 0x27, 0x2B, 0x3C, 0x3E}"
    using assms(1) by (auto simp add: htmlReplacementTable_def split: if_splits)
  ultimately show ?thesis by blast
qed

lemma table_repl_length: "htmlReplacementTable r = Some repl \<Longrightarrow> 3 \<le> length repl"
  by (auto simp add: htmlReplacementTable_def split: if_splits)

text \<open>No replaced character other than \<open>&\<close> is left in the escaped string.\<close>

lemma htmlReplacer_clean:
  assumes "htmlReplacementTable (of_char c) = Some e" and "c \<noteq> CHR ''&''"
  shows "c \<notin> set (htmlReplacer s)"
proof (induction s rule: length_induct)
  case (1 s)
  show ?case
  proof (cases s)
    case Nil
    then show ?thesis by (simp add: htmlReplacer_Nil)
  next
    case (Cons a t)
    show ?thesis
    proof (cases "(of_char a :: nat) < 128")
      case True
      have "c \<notin> set (htmlReplacer t)" using "1.IH" Cons by simp
      moreover have "c \<notin> set (case htmlReplacementTable (of_char a) of
          Some repl \<Rightarrow> repl | None \<Rightarrow> [a])"
        using assms table_repl_chars [OF _ assms] by (auto split: option.splits)
      ultimately show ?thesis using Cons True by (simp add: htmlReplacer_ascii)
    next
      case False
      then have "128 \<le> (of_char a :: nat)" by simp
      then obtain k where k: "1 \<le> k" "k \<le> length (a # t)"
        "\<forall>c \<in> set (take k (a # t)). 128 \<le> (of_char c :: nat)"
        "htmlReplacer (a # t) = take k (a # t) @ htmlReplacer (drop k (a # t))"
        by (rule htmlReplacer_high)
      have "c \<notin> set (take k (a # t))"
        using k(3) table_ascii [OF assms(1)] by auto
      moreover have "length (drop k (a # t)) < length s"
        using k(1) Cons by simp
      then have "c \<notin> set (htmlReplacer (drop k (a # t)))"
        using "1.IH" by blast
      ultimately show ?thesis using k(4) Cons by simp
    qed
  qed
qed

text \<open>Escaping never shortens, and lengthens when it replaces.\<close>

lemma htmlReplacer_length: "length s \<le> length (htmlReplacer s)"
proof (induction s rule: length_induct)
  case (1 s)
  show ?case
  proof (cases s)
    case Nil
    then show ?thesis by simp
  next
    case (Cons a t)
    show ?thesis
    proof (cases "(of_char a :: nat) < 128")
      case True
      have "length t \<le> length (htmlReplacer t)" using "1.IH" Cons by simp
      moreover have "1 \<le> length (case htmlReplacementTable (of_char a) of
          Some repl \<Rightarrow> repl | None \<Rightarrow> [a])"
        using table_repl_length [of "of_char a"] by (auto split: option.splits)
      ultimately show ?thesis using Cons True by (simp add: htmlReplacer_ascii)
    next
      case False
      then have "128 \<le> (of_char a :: nat)" by simp
      then obtain k where k: "1 \<le> k" "k \<le> length (a # t)"
        "\<forall>c \<in> set (take k (a # t)). 128 \<le> (of_char c :: nat)"
        "htmlReplacer (a # t) = take k (a # t) @ htmlReplacer (drop k (a # t))"
        by (rule htmlReplacer_high)
      have "length (drop k (a # t)) < length s"
        using k(1) Cons by simp
      then have "length (drop k (a # t)) \<le> length (htmlReplacer (drop k (a # t)))"
        using "1.IH" by blast
      then show ?thesis using k(2,4) Cons by simp
    qed
  qed
qed

lemma htmlReplacer_longer:
  assumes "c \<in> set s" and "htmlReplacementTable (of_char c) = Some e"
  shows "length s < length (htmlReplacer s)"
  using assms(1)
proof (induction s rule: length_induct)
  case (1 s)
  then obtain a t where s: "s = a # t" by (cases s) auto
  show ?case
  proof (cases "(of_char a :: nat) < 128")
    case True
    show ?thesis
    proof (cases "c = a")
      case True
      then have "htmlReplacer s = e @ htmlReplacer t"
        using s assms(2) table_ascii [OF assms(2)] by (simp add: htmlReplacer_ascii)
      then show ?thesis
        using s table_repl_length [OF assms(2)] htmlReplacer_length [of t] by simp
    next
      case False
      then have "c \<in> set t" using "1.prems" s by simp
      then have "length t < length (htmlReplacer t)"
        using "1.IH" s by simp
      moreover have "1 \<le> length (case htmlReplacementTable (of_char a) of
          Some repl \<Rightarrow> repl | None \<Rightarrow> [a])"
        using table_repl_length [of "of_char a"] by (auto split: option.splits)
      ultimately show ?thesis using s True by (simp add: htmlReplacer_ascii)
    qed
  next
    case False
    then have "128 \<le> (of_char a :: nat)" by simp
    then obtain k where k: "1 \<le> k" "k \<le> length (a # t)"
      "\<forall>c \<in> set (take k (a # t)). 128 \<le> (of_char c :: nat)"
      "htmlReplacer (a # t) = take k (a # t) @ htmlReplacer (drop k (a # t))"
      by (rule htmlReplacer_high)
    have "c \<notin> set (take k (a # t))"
      using k(3) table_ascii [OF assms(2)] by auto
    moreover have "c \<in> set (take k (a # t) @ drop k (a # t))"
      using "1.prems" s by simp
    ultimately have "c \<in> set (drop k (a # t))"
      by (simp only: set_append) blast
    moreover have "length (drop k (a # t)) < length s"
      using k(1) s by simp
    ultimately have "length (drop k (a # t)) < length (htmlReplacer (drop k (a # t)))"
      using "1.IH" by blast
    then show ?thesis using k(2,4) s by simp
  qed
qed

subsection \<open>Prompting and the command line\<close>

lemma prompt_line:
  "scn st = line # rest \<Longrightarrow>
   prompt p dflt st =
     (Inr (if TrimSpace line = [] then dflt else TrimSpace line),
      (FprintTTY (if dflt \<noteq> [] then p @ '': ('' @ dflt @ '') '' else p @ '': '') st)
        \<lparr>scn := rest\<rparr>)"
  by (simp add: prompt_def Let_def)

lemma prompt_no_line:
  "scn st = [] \<Longrightarrow>
   prompt p dflt st =
     (Inl (case scnErr st of Some err \<Rightarrow> WrapError ''input error: '' err
           | None \<Rightarrow> ErrorString ''interrupted''),
      FprintTTY (if dflt \<noteq> [] then p @ '': ('' @ dflt @ '') '' else p @ '': '') st)"
  by (simp add: prompt_def Let_def split: option.splits)

lemma tmplExecute_recvs: "recvs (snd (tmplExecute w out d st)) = recvs st"
  by (simp add: tmplExecute_def split: option.splits)

lemma parseArgs_single: "parseArgs [prog] = Inr ([], ''PKGBUILD'')"
  by (simp add: flag_eval)

lemma parseArgs_only_output: "parseArgs [prog, ''-o'', p] = Inr ([], p)"
  by (simp add: flag_eval)

lemma parseArgs_path:
  "parseArgs [''genpkgbuild-go'', ''github.com/golang/lint/golint'']
     = Inr ([''github.com/golang/lint/golint''], ''PKGBUILD'')"
  by (simp add: flag_eval)

lemma parseArgs_stdout:
  "parseArgs [''genpkgbuild-go'', ''-o'', ''-'', ''github.com/golang/lint/golint'']
     = Inr ([''github.com/golang/lint/golint''], ''-'')"
  by (simp add: flag_eval)

lemma parseArgs_hg:
  "parseArgs [''genpkgbuild-go'', ''example.org/hg/tool'']
     = Inr ([''example.org/hg/tool''], ''PKGBUILD'')"
  by (simp add: flag_eval)

text \<open>A positional argument needs a command line of at least two words.\<close>

lemma parseArgs_length:
  assumes "parseArgs osArgs = Inr (a # others, outputPath)"
  shows "2 \<le> length osArgs"
proof (rule ccontr)
  assume "\<not> 2 \<le> length osArgs"
  then consider "osArgs = []" | prog where "osArgs = [prog]"
    by (cases osArgs) (auto simp add: Suc_le_eq)
  then show False
    using assms by cases (simp_all add: parseArgs_single, simp add: parseArgs_def)
qed

lemma golint_paths:
  "Base ''github.com/golang/lint'' = ''lint''"
  "Base ''github.com/golang/lint/golint'' = ''golint''"
  "relPathOf ''github.com/golang/lint'' ''github.com/golang/lint/golint'' = Inr ''golint''"
  by (simp_all add: path_eval)

lemma TrimSpace_Nil: "TrimSpace [] = []"
  by (simp add: utf8_eval strings_eval)

lemma Fields_Nil: "Fields [] = []"
  by (simp add: utf8_eval strings_eval)

lemma Rel_same: "Rel root root = Inr ''.''"
  by (simp add: Rel_def Let_def)

subsection \<open>Usage errors\<close>

text \<open>
  With no argument at all the run signals \<open>IncorrectUsageError\<close>, after it has created
  the default destination, and \<open>main\<close> prints the usage text after the message.
\<close>

lemma run_no_arguments:
  assumes "openTTY w = None" and "Args w = [prog]"
    and "files st ''PKGBUILD'' = None" and "createErr w ''PKGBUILD'' = None"
  shows "run w st =
      (Returned (Some (IncorrectUsageError (ErrorString ''specify import path''))),
       st\<lparr>files := (files st)(''PKGBUILD'' \<mapsto> [])\<rparr>)"
    and "main w st =
      (1, FprintStderr (''specify import path\<newline>'' @ ''\<newline>'' @ usage @ ''\<newline>'' @ ''\<newline>'')
            (st\<lparr>files := (files st)(''PKGBUILD'' \<mapsto> [])\<rparr>))"
  using assms by (simp_all add: run_def main_def openOutput_def parseArgs_single)

text \<open>
  With \<open>-o\<close> and its value as the only arguments, \<open>os.Args\<close> has three elements, so the
  check \<open>len(os.Args) < 2\<close> passes, and \<open>args[0]\<close> indexes an empty slice.
\<close>

lemma run_only_output:
  assumes "openTTY w = None" and "Args w = [prog, ''-o'', p]"
    and "p = ''-'' \<or> files st p = None \<and> createErr w p = None"
  shows "fst (run w st) = Panicked ''runtime error: index out of range [0] with length 0''"
  using assms by (auto simp add: run_def openOutput_def parseArgs_only_output)

text \<open>
  C1 (the source departs from the claim). For the command line
  \<open>genpkgbuild-go -o out\<close>, with the terminal available and no file \<open>out\<close>: the run
  does not signal \<open>IncorrectUsageError\<close>. It creates the empty file \<open>out\<close> and panics
  with an index out of range; the process ends with status 2 and the usage text is
  not printed.
\<close>

theorem run_output_flag_only_panics:
  "run (w_ex [''genpkgbuild-go'', ''-o'', ''out'']) (st_ex [])
     = (Panicked ''runtime error: index out of range [0] with length 0'',
        (st_ex [])\<lparr>files := [''out'' \<mapsto> []]\<rparr>)
   \<and> fst (main (w_ex [''genpkgbuild-go'', ''-o'', ''out'']) (st_ex [])) = 2
   \<and> stderr (snd (main (w_ex [''genpkgbuild-go'', ''-o'', ''out'']) (st_ex [])))
       = ''panic: runtime error: index out of range [0] with length 0\<newline>''"
  by (simp add: run_def main_def openOutput_def parseArgs_only_output w_ex_def st_ex_def)

subsection \<open>Render failures\<close>

text \<open>
  Once the three prompts, the relative path and the fetch have succeeded, \<open>run\<close> returns
  nil whatever \<open>tmpl.Execute\<close> returns.
\<close>

lemma orchestrate_returns_nil:
  assumes "scn st = l1 # l2 # l3 # rest"
    and "relPathOf (RepoRoot.Root repoRoot) importPath = Inr relPath"
    and "snd (getVersion w repoRoot) = Inr version"
  shows "fst (orchestrate w importPath out repoRoot st) = Returned None"
  using assms by (simp add: orchestrate_def prompt_line Let_def)

text \<open>
  C2 (the source departs from the claim). For the command line
  \<open>genpkgbuild-go -o - github.com/golang/lint/golint\<close> with standard output full:
  rendering fails with the write error, and yet the process ends with status 0,
  with nothing on standard error and nothing on standard output.
\<close>

theorem render_failure_dropped:
  "fst (tmplExecute w_full Stdout d st)
     = Some (ErrorString ''write /dev/stdout: no space left on device'')
   \<and> fst (main w_full (st_ex ['''', '''', ''''])) = 0
   \<and> stderr (snd (main w_full (st_ex ['''', '''', '''']))) = []
   \<and> stdout (snd (main w_full (st_ex ['''', '''', '''']))) = []"
proof -
  have "fst (tmplExecute w_full Stdout d st)
     = Some (ErrorString ''write /dev/stdout: no space left on device'')"
    by (simp add: tmplExecute_def w_full_def w_ex_def tmplText_def tmplHead_def)
  moreover have "fst (main w_full (st_ex ['''', '''', ''''])) = 0
    \<and> stderr (snd (main w_full (st_ex ['''', '''', '''']))) = []
    \<and> stdout (snd (main w_full (st_ex ['''', '''', '''']))) = []"
    by (simp add: main_def run_def orchestrate_def openOutput_def getVersion_def
        tmplExecute_def world_eval parseArgs_stdout golint_paths prompt_line TrimSpace_Nil
        Fields_Nil tmplText_def tmplHead_def Let_def)
  ultimately show ?thesis by simp
qed

subsection \<open>The destination and the version-control kind\<close>

text \<open>
  C3. When the run reaches the resolver (the terminal opens, the command line gives an
  import path, the destination opens) and the import path resolves to a kind that is
  not Git, the run returns the unsupported-kind error, and the only change of state is
  the creation of the empty destination file: nothing is written to the destination.
\<close>

theorem unsupported_vcs:
  assumes "openTTY w = None"
    and "parseArgs (Args w) = Inr (importPath # others, outputPath)"
    and "outputPath = ''-'' \<or> files st outputPath = None \<and> createErr w outputPath = None"
    and "RepoRootForImportPath w importPath = Inr repoRoot"
    and "VCSName repoRoot \<noteq> ''Git''"
  shows "run w st =
    (Returned (Some (ErrorString
        (''sorry, not git repo is not supported yet: '' @ VCSName repoRoot))),
     if outputPath = ''-'' then st else st\<lparr>files := (files st)(outputPath \<mapsto> [])\<rparr>)"
  using assms parseArgs_length [of "Args w" importPath others outputPath]
  by (auto simp add: run_def openOutput_def)

theorem unsupported_vcs_witness:
  "run w_hg (st_ex []) =
    (Returned (Some (ErrorString ''sorry, not git repo is not supported yet: Mercurial'')),
     (st_ex [])\<lparr>files := [''PKGBUILD'' \<mapsto> []]\<rparr>)"
  using unsupported_vcs [of w_hg "''example.org/hg/tool''" "[]" "''PKGBUILD''" "st_ex []"
      "\<lparr>VCSName = ''Mercurial'', RepoRoot.Repo = ''https://example.org/hg/tool'',
        RepoRoot.Root = ''example.org/hg/tool''\<rparr>"]
  by (simp add: w_hg_def w_ex_def st_ex_def parseArgs_hg)

text \<open>Opening the destination never changes a file that exists.\<close>

lemma openOutput_keeps:
  "files st p = Some content \<Longrightarrow> files (snd (openOutput w q st)) p = Some content"
  by (auto simp add: openOutput_def split: option.splits)

lemma tmplExecute_files:
  "out \<noteq> File p \<Longrightarrow> files (snd (tmplExecute w out d st)) p = files st p"
  by (cases out) (auto simp add: tmplExecute_def split: option.splits)

lemma prompt_files: "files (snd (prompt q dflt st)) = files st"
  by (simp add: prompt_def Let_def split: list.splits option.splits)

lemma orchestrate_files:
  assumes "out \<noteq> File p"
  shows "files (snd (orchestrate w importPath out repoRoot st)) p = files st p"
proof (cases "scn st")
  case Nil
  then show ?thesis
    by (simp add: orchestrate_def prompt_no_line Let_def)
next
  case c1: (Cons l1 r1)
  show ?thesis
  proof (cases r1)
    case Nil
    with c1 show ?thesis
      by (simp add: orchestrate_def prompt_line prompt_no_line Let_def)
  next
    case c2: (Cons l2 r2)
    show ?thesis
    proof (cases r2)
      case Nil
      with c1 c2 show ?thesis
        by (simp add: orchestrate_def prompt_line prompt_no_line Let_def split: sum.splits)
    next
      case (Cons l3 r3)
      with c1 c2 assms show ?thesis
        by (simp add: orchestrate_def prompt_line Let_def tmplExecute_files
            split: sum.splits)
    qed
  qed
qed

text \<open>A run never changes a file that exists when it starts.\<close>

lemma run_keeps_files:
  assumes "files st p = Some content"
  shows "files (snd (run w st)) p = Some content"
proof (cases "openTTY w")
  case (Some err)
  then show ?thesis using assms by (simp add: run_def)
next
  case None
  show ?thesis
  proof (cases "parseArgs (Args w)")
    case (Inl x)
    then show ?thesis using None assms by (cases x) (simp add: run_def)
  next
    case (Inr y)
    obtain args outputPath where y: "y = (args, outputPath)" by (cases y)
    show ?thesis
    proof (cases "openOutput w outputPath st")
      case (Pair r st1)
      have k: "files st1 p = Some content"
        using openOutput_keeps [OF assms, of w outputPath] Pair by simp
      show ?thesis
      proof (cases r)
        case (Inl err)
        then show ?thesis using None Inr y Pair k by (simp add: run_def)
      next
        case (Inr out)
        have ne: "out \<noteq> File p"
          using Pair Inr assms
          by (auto simp add: openOutput_def split: if_splits option.splits)
        have "files (snd (orchestrate w ip out rr st1)) p = Some content" for ip rr
          using orchestrate_files [OF ne] k by simp
        then show ?thesis
          using None \<open>parseArgs (Args w) = Inr y\<close> y Pair Inr k
          by (simp add: run_def split: list.splits sum.splits)
      qed
    qed
  qed
qed

text \<open>
  C4. When the run reaches the opening of the destination (the terminal opens, the
  command line parses) and the output path, other than \<open>-\<close>, names a file that exists,
  the run returns the error of the exclusive open and leaves the state as it was. And
  no run at all changes the contents of a file that exists when it starts.
\<close>

theorem existing_destination:
  "(openTTY w = None \<and> parseArgs (Args w) = Inr (args, outputPath) \<and> outputPath \<noteq> ''-''
      \<and> files st outputPath = Some content
    \<longrightarrow> run w st = (Returned (Some (PathError ''open'' outputPath ''file exists'')), st))
   \<and> (files st p = Some content' \<longrightarrow> files (snd (run w st)) p = Some content')"
  using run_keeps_files [of st p content' w]
  by (simp add: run_def openOutput_def)

theorem existing_destination_witness:
  "run (w_ex [''genpkgbuild-go'', ''github.com/golang/lint/golint''])
      ((st_ex [])\<lparr>files := [''PKGBUILD'' \<mapsto> ''pkgname=old'']\<rparr>)
     = (Returned (Some (PathError ''open'' ''PKGBUILD'' ''file exists'')),
        (st_ex [])\<lparr>files := [''PKGBUILD'' \<mapsto> ''pkgname=old'']\<rparr>)
   \<and> files (snd (run (w_ex [''genpkgbuild-go'', ''github.com/golang/lint/golint''])
      ((st_ex [])\<lparr>files := [''PKGBUILD'' \<mapsto> ''pkgname=old'']\<rparr>))) ''PKGBUILD''
     = Some ''pkgname=old''"
  using existing_destination [of "w_ex [''genpkgbuild-go'', ''github.com/golang/lint/golint'']"
      "[''github.com/golang/lint/golint'']" "''PKGBUILD''"
      "(st_ex [])\<lparr>files := [''PKGBUILD'' \<mapsto> ''pkgname=old'']\<rparr>" "''pkgname=old''"
      "''PKGBUILD''" "''pkgname=old''"]
  by (simp add: w_ex_def st_ex_def parseArgs_path)

subsection \<open>The prompt\<close>

text \<open>
  C5. For every call of \<open>prompt\<close> in which the scanner delivers a line: when the line is
  empty after trimming white space, the value is the default, exactly; otherwise the
  value is the trimmed line.
\<close>

theorem prompt_resolves:
  assumes "scn st = line # rest"
  shows "fst (prompt p dflt st) = Inr (if TrimSpace line = [] then dflt else TrimSpace line)"
  using assms by (simp add: prompt_def Let_def)

theorem prompt_resolves_witness:
  "fst (prompt ''Package Name'' ''lint-git'' (st_ex [''   '', ''x''])) = Inr ''lint-git''
   \<and> fst (prompt ''Package Name'' ''lint-git'' (st_ex [''  golint-git '', ''x'']))
       = Inr ''golint-git''"
  using prompt_resolves [of "st_ex [''   '', ''x'']" "''   ''" "[''x'']"
          "''Package Name''" "''lint-git''"]
        prompt_resolves [of "st_ex [''  golint-git '', ''x'']" "''  golint-git ''" "[''x'']"
          "''Package Name''" "''lint-git''"]
  by (simp add: st_ex_def utf8_eval strings_eval)

lemma asciiSpace_IsSpace:
  "c \<in> asciiSpace \<Longrightarrow> (of_char c :: nat) < 128 \<and> IsSpace (of_char c)"
  by (auto simp add: asciiSpace_def IsSpace_def)

lemma TrimLeftFunc_Nil: "TrimLeftFunc f [] = []"
  by (simp add: TrimLeftFunc.simps)

lemma TrimLeftFunc_ascii:
  "(of_char a :: nat) < 128 \<Longrightarrow>
   TrimLeftFunc f (a # t) = (if f (of_char a) then TrimLeftFunc f t else a # t)"
  by (subst TrimLeftFunc.simps) (simp add: DecodeRune_ascii)

lemma TrimLeftFunc_spaces:
  assumes "set l \<subseteq> asciiSpace"
  shows "TrimLeftFunc IsSpace (l @ s) = TrimLeftFunc IsSpace s"
  using assms
  by (induction l) (simp_all add: TrimLeftFunc_ascii asciiSpace_IsSpace)

lemma DecodeLastRune_ascii:
  "(of_char c :: nat) < 128 \<Longrightarrow> DecodeLastRuneInString (s @ [c]) = (of_char c, 1)"
  by (simp add: DecodeLastRuneInString_def RuneSelf_def Let_def)

lemma lastIndexFunc_Nil: "lastIndexFunc f truth [] = None"
  by (simp add: lastIndexFunc.simps)

lemma lastIndexFunc_ascii:
  "(of_char c :: nat) < 128 \<Longrightarrow>
   lastIndexFunc f truth (s @ [c])
     = (if f (of_char c) = truth then Some (length s) else lastIndexFunc f truth s)"
  by (subst lastIndexFunc.simps) (simp add: DecodeLastRune_ascii)

lemma lastIndexFunc_spaces:
  assumes "set r \<subseteq> asciiSpace"
  shows "lastIndexFunc IsSpace False (s @ r) = lastIndexFunc IsSpace False s"
  using assms
proof (induction r rule: rev_induct)
  case Nil
  then show ?case by simp
next
  case (snoc c r)
  have "lastIndexFunc IsSpace False ((s @ r) @ [c]) = lastIndexFunc IsSpace False (s @ r)"
    using lastIndexFunc_ascii [of c IsSpace False "s @ r"] asciiSpace_IsSpace [of c] snoc.prems
    by simp
  then show ?case using snoc by simp
qed

text \<open>A line of ASCII white space only is empty after trimming.\<close>

lemma TrimSpace_blank:
  assumes "set s \<subseteq> asciiSpace"
  shows "TrimSpace s = []"
proof -
  have "TrimLeftFunc IsSpace (s @ []) = []"
    using assms by (simp only: TrimLeftFunc_spaces TrimLeftFunc_Nil)
  then show ?thesis
    by (simp add: TrimSpace_def TrimFunc_def TrimRightFunc_def lastIndexFunc_Nil)
qed

text \<open>
  Trimming removes the ASCII white space around a text that starts and ends with an
  ASCII character that is not white space, and nothing else.
\<close>

lemma TrimSpace_padded:
  assumes "set l \<subseteq> asciiSpace" and "set r \<subseteq> asciiSpace"
    and "(of_char a :: nat) < 128" and "\<not> IsSpace (of_char a)"
    and "(of_char b :: nat) < 128" and "\<not> IsSpace (of_char b)"
  shows "TrimSpace (l @ (a # m @ [b]) @ r) = a # m @ [b]"
proof -
  define s where "s = (a # m @ [b]) @ r"
  have left: "TrimLeftFunc IsSpace (l @ s) = s"
    using assms(1,3,4) by (simp add: TrimLeftFunc_spaces TrimLeftFunc_ascii s_def)
  have "lastIndexFunc IsSpace False s = lastIndexFunc IsSpace False (a # m @ [b])"
    unfolding s_def using assms(2) by (rule lastIndexFunc_spaces)
  also have "\<dots> = Some (length (a # m))"
    using lastIndexFunc_ascii [of b IsSpace False "a # m"] assms(5,6) by simp
  finally have idx: "lastIndexFunc IsSpace False s = Some (Suc (length m))"
    by simp
  have nth: "s ! Suc (length m) = b"
    by (simp add: s_def nth_append)
  have tk: "take (Suc (Suc (length m))) s = a # m @ [b]"
    by (simp add: s_def)
  have "TrimRightFunc IsSpace s = a # m @ [b]"
    using assms(5) by (simp add: TrimRightFunc_def idx nth tk RuneSelf_def)
  then show ?thesis
    using left by (simp add: TrimSpace_def TrimFunc_def s_def)
qed

lemma prompt_blank_line:
  assumes "scn st = line # rest" and "set line \<subseteq> asciiSpace"
  shows "fst (prompt p dflt st) = Inr dflt"
  using assms by (simp add: prompt_line TrimSpace_blank)

lemma prompt_padded_line:
  assumes "scn st = (l @ (a # m @ [b]) @ r) # rest"
    and "set l \<subseteq> asciiSpace" and "set r \<subseteq> asciiSpace"
    and "(of_char a :: nat) < 128" and "\<not> IsSpace (of_char a)"
    and "(of_char b :: nat) < 128" and "\<not> IsSpace (of_char b)"
  shows "fst (prompt p dflt st) = Inr (a # m @ [b])"
  using assms(1) TrimSpace_padded [OF assms(2-7), of m]
  by (simp add: prompt_line)

subsection \<open>The relative sub-path\<close>

lemma joinPath_Cons: "cs \<noteq> [] \<Longrightarrow> joinPath (c # cs) = c @ ''/'' @ joinPath cs"
  by (cases cs) simp_all

lemma joinPath_append:
  "rs \<noteq> [] \<Longrightarrow> ss \<noteq> [] \<Longrightarrow> joinPath (rs @ ss) = joinPath rs @ ''/'' @ joinPath ss"
proof (induction rs)
  case Nil
  then show ?case by simp
next
  case (Cons c rs)
  then show ?case
    by (cases "rs = []") (simp_all add: joinPath_Cons)
qed

lemma joinPath_nonempty: "cs \<noteq> [] \<Longrightarrow> \<forall>c \<in> set cs. element c \<Longrightarrow> joinPath cs \<noteq> []"
  by (cases cs rule: joinPath.cases) (auto simp add: element_def)

lemma joinPath_hd:
  "cs \<noteq> [] \<Longrightarrow> \<forall>c \<in> set cs. element c \<Longrightarrow> joinPath cs ! 0 \<noteq> CHR ''/''"
proof (cases cs rule: joinPath.cases)
  case (2 c)
  assume "\<forall>c \<in> set cs. element c"
  then have "c \<noteq> []" "CHR ''/'' \<notin> set c" using 2 by (auto simp add: element_def)
  then show ?thesis using 2 by (cases c) auto
next
  case (3 c v va)
  assume "\<forall>c \<in> set cs. element c"
  then have "c \<noteq> []" "CHR ''/'' \<notin> set c" using 3 by (auto simp add: element_def)
  then show ?thesis using 3 by (cases c) auto
qed simp

lemma joinPath_not_dot:
  "cs \<noteq> [] \<Longrightarrow> \<forall>c \<in> set cs. element c \<Longrightarrow> joinPath cs \<noteq> ''.''"
proof (cases cs rule: joinPath.cases)
  case (3 c v va)
  assume "\<forall>c \<in> set cs. element c"
  then have "c \<noteq> []" using 3 by (auto simp add: element_def)
  then have "2 \<le> length (joinPath cs)" using 3 by (cases c) auto
  then show ?thesis by auto
qed (auto simp add: element_def)

lemma cleanLoop_Nil: "cleanLoop rooted [] out dotdot = out"
  by (simp add: cleanLoop.simps)

lemma cleanLoop_slash:
  "cleanLoop rooted (CHR ''/'' # rest) out dotdot = cleanLoop rooted rest out dotdot"
  by (subst cleanLoop.simps) simp

lemma takeWhile_element:
  "CHR ''/'' \<notin> set c \<Longrightarrow> rest = [] \<or> hd rest = CHR ''/'' \<Longrightarrow>
   takeWhile (\<lambda>x. x \<noteq> CHR ''/'') (c @ rest) = c
   \<and> dropWhile (\<lambda>x. x \<noteq> CHR ''/'') (c @ rest) = rest"
  by (cases rest) (auto simp add: takeWhile_append dropWhile_append)

lemma cleanLoop_element:
  assumes "element c" and "rest = [] \<or> hd rest = CHR ''/''"
  shows "cleanLoop False (c @ rest) out 0
    = cleanLoop False rest ((if out \<noteq> [] then out @ ''/'' else out) @ c) 0"
proof -
  obtain x t where c: "c = x # t" using assms(1) by (cases c) (auto simp add: element_def)
  have x: "x \<noteq> CHR ''/''" and t: "CHR ''/'' \<notin> set t"
    using assms(1) c by (auto simp add: element_def)
  have n1: "\<not> (x = CHR ''.'' \<and> (t @ rest = [] \<or> hd (t @ rest) = CHR ''/''))"
    using assms c t by (cases t) (auto simp add: element_def)
  have n2: "\<not> (x = CHR ''.'' \<and> hd (t @ rest) = CHR ''.''
      \<and> (tl (t @ rest) = [] \<or> hd (tl (t @ rest)) = CHR ''/''))"
  proof (cases t)
    case Nil
    then show ?thesis using assms c by (auto simp add: element_def)
  next
    case (Cons y u)
    then show ?thesis using assms c t by (cases u) (auto simp add: element_def)
  qed
  have tw: "takeWhile (\<lambda>x. x \<noteq> CHR ''/'') (c @ rest) = c"
    "dropWhile (\<lambda>x. x \<noteq> CHR ''/'') (c @ rest) = rest"
    using takeWhile_element [of c rest] assms by (auto simp add: element_def)
  show ?thesis
    apply (subst cleanLoop.simps)
    using x n1 n2 tw by (auto simp add: c Let_def)
qed

lemma cleanLoop_join:
  assumes "cs \<noteq> []" and "\<forall>c \<in> set cs. element c"
  shows "cleanLoop False (joinPath cs) out 0
    = (if out \<noteq> [] then out @ ''/'' else out) @ joinPath cs"
  using assms
proof (induction cs arbitrary: out)
  case Nil
  then show ?case by simp
next
  case (Cons c cs)
  show ?case
  proof (cases "cs = []")
    case True
    then show ?thesis
      using Cons.prems cleanLoop_element [of c "[]" out] by (simp add: cleanLoop_Nil)
  next
    case False
    have "cleanLoop False (c @ CHR ''/'' # joinPath cs) out 0
      = cleanLoop False (CHR ''/'' # joinPath cs) ((if out \<noteq> [] then out @ ''/'' else out) @ c) 0"
      using Cons.prems by (intro cleanLoop_element) auto
    also have "\<dots> = cleanLoop False (joinPath cs) ((if out \<noteq> [] then out @ ''/'' else out) @ c) 0"
      by (rule cleanLoop_slash)
    also have "\<dots> = ((if out \<noteq> [] then out @ ''/'' else out) @ c) @ ''/'' @ joinPath cs"
      using Cons.IH [of "(if out \<noteq> [] then out @ ''/'' else out) @ c"] False Cons.prems
      by (auto simp add: element_def)
    finally show ?thesis
      using False by (simp add: joinPath_Cons)
  qed
qed

text \<open>\<open>Clean\<close> leaves a path of elements as it is.\<close>

lemma Clean_join:
  assumes "cs \<noteq> []" and "\<forall>c \<in> set cs. element c"
  shows "Clean (joinPath cs) = joinPath cs"
proof -
  have ne: "joinPath cs \<noteq> []" using assms by (rule joinPath_nonempty)
  moreover have "hd (joinPath cs) \<noteq> CHR ''/''"
    using joinPath_hd [OF assms] ne by (simp add: hd_conv_nth)
  ultimately show ?thesis
    using cleanLoop_join [OF assms, of "[]"] by (simp add: Clean_def)
qed


lemma scanElem_element:
  assumes "CHR ''/'' \<notin> set c" and "rest = [] \<or> hd rest = CHR ''/''"
  shows "scanElem (pre @ c @ rest) (length pre) = length pre + length c"
  using assms(1)
proof (induction c arbitrary: pre)
  case Nil
  show ?case
    using assms(2)
    by (subst scanElem.simps) (cases rest; simp add: nth_append)
next
  case (Cons x t)
  have "scanElem (pre @ (x # t) @ rest) (length pre)
      = scanElem ((pre @ [x]) @ t @ rest) (length (pre @ [x]))"
    using Cons.prems by (subst scanElem.simps) (auto simp add: nth_append)
  also have "\<dots> = length (pre @ [x]) + length t"
    using Cons.prems by (intro Cons.IH) simp
  finally show ?case by simp
qed

lemma slice_middle: "slice (pre @ c @ rest) (length pre) (length pre + length c) = c"
  by (simp add: slice_def)

lemma relLoop_done: "relLoop base targ b0 (length base) t0 ti = (b0, length base, t0, ti)"
  by (subst relLoop.simps) simp

text \<open>
  On a base of elements and a target that continues it, the loop of \<open>Rel\<close> stops after
  the base, and after the separator that follows it in the target.
\<close>

lemma relLoop_join:
  assumes "rs \<noteq> []" and "\<forall>c \<in> set rs. element c"
  shows "relLoop (pre @ joinPath rs) (pre @ joinPath rs @ ''/'' @ sub)
      (length pre) (length pre) (length pre) (length pre)
    = (length (pre @ joinPath rs), length (pre @ joinPath rs),
       length (pre @ joinPath rs) + 1, length (pre @ joinPath rs) + 1)"
  using assms
proof (induction rs arbitrary: pre)
  case Nil
  then show ?case by simp
next
  case (Cons c rs)
  have c: "c \<noteq> []" "CHR ''/'' \<notin> set c"
    using Cons.prems by (auto simp add: element_def)
  show ?case
  proof (cases "rs = []")
    case True
    let ?base = "pre @ c"
    let ?targ = "pre @ c @ ''/'' @ sub"
    have sb: "scanElem ?base (length pre) = length pre + length c"
      using scanElem_element [of c "[]" pre] c by simp
    have st: "scanElem ?targ (length pre) = length pre + length c"
      using scanElem_element [of c "''/'' @ sub" pre] c by simp
    have eq: "slice ?targ (length pre) (length pre + length c)
        = slice ?base (length pre) (length pre + length c)"
      using slice_middle [of pre c "''/'' @ sub"] slice_middle [of pre c "[]"] by simp
    have "relLoop ?base ?targ (length pre) (length pre) (length pre) (length pre)
        = relLoop ?base ?targ (length ?base) (length ?base) (length ?base + 1) (length ?base + 1)"
      using c sb st eq by (subst relLoop.simps) (simp add: Let_def)
    also have "\<dots> = (length ?base, length ?base, length ?base + 1, length ?base + 1)"
      by (rule relLoop_done)
    finally show ?thesis using True by simp
  next
    case False
    define pre' where "pre' = pre @ c @ ''/''"
    define base where "base = pre @ c @ (''/'' @ joinPath rs)"
    define targ where "targ = pre @ c @ (''/'' @ joinPath rs @ ''/'' @ sub)"
    have b: "pre @ joinPath (c # rs) = base"
      using False by (simp add: joinPath_Cons base_def)
    have t: "pre @ joinPath (c # rs) @ ''/'' @ sub = targ"
      using False by (simp add: joinPath_Cons targ_def)
    have b': "base = pre' @ joinPath rs"
      by (simp add: base_def pre'_def)
    have t': "targ = pre' @ joinPath rs @ ''/'' @ sub"
      by (simp add: targ_def pre'_def)
    have sb: "scanElem base (length pre) = length pre + length c"
      unfolding base_def using c(2) by (intro scanElem_element) simp_all
    have st: "scanElem targ (length pre) = length pre + length c"
      unfolding targ_def using c(2) by (intro scanElem_element) simp_all
    have eq: "slice targ (length pre) (length pre + length c)
        = slice base (length pre) (length pre + length c)"
      unfolding base_def targ_def by (simp only: slice_middle)
    have lb: "length pre + length c < length base"
      and lt: "length pre + length c < length targ"
      by (simp_all add: base_def targ_def)
    have lp: "length pre' = length pre + length c + 1"
      by (simp add: pre'_def)
    have "relLoop base targ (length pre) (length pre) (length pre) (length pre)
        = relLoop base targ (length pre') (length pre') (length pre') (length pre')"
      using lb lt by (subst relLoop.simps) (simp add: sb st eq lp Let_def)
    also have "\<dots> = (length base, length base, length base + 1, length base + 1)"
      unfolding b' t' using False Cons.prems by (intro Cons.IH) auto
    finally show ?thesis
      unfolding b t by simp
  qed
qed

text \<open>
  The relative sub-path of an import path that continues the root by elements is the
  continuation.
\<close>

lemma relPathOf_join:
  assumes "rs \<noteq> []" and "ss \<noteq> []"
    and "\<forall>c \<in> set rs. element c" and "\<forall>c \<in> set ss. element c"
  shows "relPathOf (joinPath rs) (joinPath (rs @ ss)) = Inr (joinPath ss)"
proof -
  define base where "base = joinPath rs"
  define sub where "sub = joinPath ss"
  define targ where "targ = base @ ''/'' @ sub"
  have j: "joinPath (rs @ ss) = targ"
    unfolding targ_def base_def sub_def using assms(1,2) by (rule joinPath_append)
  have all: "rs @ ss \<noteq> []" "\<forall>c \<in> set (rs @ ss). element c"
    using assms by auto
  have cb: "Clean base = base"
    unfolding base_def using assms(1,3) by (rule Clean_join)
  have ct: "Clean targ = targ"
    using Clean_join [OF all] j by simp
  have ne: "targ \<noteq> base" by (simp add: targ_def)
  have nd: "base \<noteq> ''.''"
    unfolding base_def using assms(1,3) by (rule joinPath_not_dot)
  have nb: "base \<noteq> []"
    unfolding base_def using assms(1,3) by (rule joinPath_nonempty)
  have hb: "base ! 0 \<noteq> CHR ''/''"
    unfolding base_def using assms(1,3) by (rule joinPath_hd)
  have ht: "targ ! 0 \<noteq> CHR ''/''"
    using hb nb by (simp add: targ_def nth_append)
  have loop: "relLoop base targ 0 0 0 0
      = (length base, length base, length base + 1, length base + 1)"
    using relLoop_join [OF assms(1,3), of "[]" sub] by (simp add: targ_def base_def)
  have dr: "drop (length base + 1) targ = sub"
    by (simp add: targ_def)
  have sd: "sub \<noteq> ''.''"
    unfolding sub_def using assms(2,4) by (rule joinPath_not_dot)
  have "Rel base targ = Inr sub"
    using ne nd nb hb ht dr
    by (simp add: Rel_def cb ct loop slice_def Let_def)
  then show ?thesis
    using sd j by (simp add: relPathOf_def base_def sub_def)
qed

text \<open>
  C6. The relative sub-path of \<open>example.com/foo/bar/cmd/baz\<close> under the root
  \<open>example.com/foo/bar\<close> is \<open>cmd/baz\<close>; the relative sub-path of any import path under
  itself is empty; and whenever the import path is the root followed by a separator
  and further elements, the relative sub-path is those elements.
\<close>

theorem relative_sub_path:
  "relPathOf ''example.com/foo/bar'' ''example.com/foo/bar/cmd/baz'' = Inr ''cmd/baz''
   \<and> relPathOf root root = Inr []
   \<and> (rs \<noteq> [] \<and> ss \<noteq> [] \<and> (\<forall>c \<in> set rs. element c) \<and> (\<forall>c \<in> set ss. element c)
        \<longrightarrow> relPathOf (joinPath rs) (joinPath (rs @ ss)) = Inr (joinPath ss))"
proof (intro conjI)
  show "relPathOf ''example.com/foo/bar'' ''example.com/foo/bar/cmd/baz'' = Inr ''cmd/baz''"
    by (simp add: path_eval Let_def)
  show "relPathOf root root = Inr []"
    by (simp add: relPathOf_def Rel_same)
  show "rs \<noteq> [] \<and> ss \<noteq> [] \<and> (\<forall>c \<in> set rs. element c) \<and> (\<forall>c \<in> set ss. element c)
        \<longrightarrow> relPathOf (joinPath rs) (joinPath (rs @ ss)) = Inr (joinPath ss)"
    using relPathOf_join [of rs ss] by blast
qed

theorem relative_sub_path_witness:
  "relPathOf (joinPath [''github.com'', ''golang'', ''lint''])
      (joinPath [''github.com'', ''golang'', ''lint'', ''cmd'', ''golint''])
     = Inr (joinPath [''cmd'', ''golint''])
   \<and> joinPath [''github.com'', ''golang'', ''lint'', ''cmd'', ''golint'']
     = ''github.com/golang/lint/cmd/golint''"
  using relative_sub_path [of "''x''" "[''github.com'', ''golang'', ''lint'']"
      "[''cmd'', ''golint'']"]
  by (simp add: element_def)

subsection \<open>Where the values appear in the recipe\<close>

lemma sublist_appR: "sublist xs zs \<Longrightarrow> sublist xs (ys @ zs)"
  by (simp add: sublist_append)

lemma sublist_appL: "sublist xs ys \<Longrightarrow> sublist xs (ys @ zs)"
  by (simp add: sublist_append)

lemma rangeDepends_sublist:
  "v \<in> set deps \<Longrightarrow> sublist (htmlEscaper v) (rangeDepends i deps)"
proof (induction deps arbitrary: i)
  case Nil
  then show ?case by simp
next
  case (Cons x xs)
  show ?case
  proof (cases "v = x")
    case True
    have "sublist (htmlEscaper x)
        (((if i \<noteq> 0 then '' '' else []) @ [CHR 0x27]) @ htmlEscaper x
          @ ([CHR 0x27] @ rangeDepends (i + 1) xs))"
      by (rule sublist_appendI)
    then show ?thesis using True by simp
  next
    case False
    then have "sublist (htmlEscaper v) (rangeDepends (i + 1) xs)"
      using Cons by simp
    then have "sublist (htmlEscaper v)
        (((if i \<noteq> 0 then '' '' else []) @ [CHR 0x27] @ htmlEscaper x @ [CHR 0x27])
          @ rangeDepends (i + 1) xs)"
      by (rule sublist_appR)
    then show ?thesis by simp
  qed
qed

lemma skip2: "sublist xs r \<Longrightarrow> sublist xs (a @ b @ r)"
  by (intro sublist_appR)

lemma skip4: "sublist xs r \<Longrightarrow> sublist xs (a @ b @ c @ d @ r)"
  by (intro sublist_appR)

lemma skip8: "sublist xs r \<Longrightarrow> sublist xs (a @ b @ c @ d @ e @ f @ g @ h @ r)"
  by (intro sublist_appR)

lemma sub3: "sublist (a @ b @ c) (a @ b @ c @ r)"
  using sublist_append_rightI [of "a @ b @ c" r] by simp

lemma head_PkgName: "sublist (htmlEscaper (PkgName d)) (tmplHead d)"
  unfolding tmplHead_def by (rule sublist_appendI)

lemma head_Dir: "sublist (htmlEscaper (Dir d)) (tmplHead d)"
  unfolding tmplHead_def by (rule skip4, rule sublist_append_rightI)

lemma head_PkgVer: "sublist (htmlEscaper (PkgVer d)) (tmplHead d)"
  unfolding tmplHead_def tmplPkgverLine_def
  by (rule skip4, rule skip2, rule sublist_appL, rule sublist_append_leftI)

lemma head_Repo: "sublist (htmlEscaper (Repo d)) (tmplHead d)"
  unfolding tmplHead_def by (rule skip8, rule skip4, rule sublist_append_rightI)

lemma head_Root: "sublist (htmlEscaper (TmplData.Root d)) (tmplHead d)"
  unfolding tmplHead_def by (rule skip8, rule skip8, rule sublist_append_rightI)

lemma head_Depends:
  "v \<in> set (Depends d) \<Longrightarrow> sublist (htmlEscaper v) (tmplHead d)"
  unfolding tmplHead_def tmplDependsLine_def
  by (rule skip8, rule skip8, rule skip4, rule sublist_appL,
      rule sublist_appR, rule sublist_appL, rule rangeDepends_sublist)

lemma build_Path:
  assumes "Path d \<noteq> []"
  shows "sublist (htmlEscaper (Path d)) (tmplBuild d)"
proof -
  have "sublist (htmlEscaper (Path d))
      (if Path d \<noteq> [] then ''/'' @ htmlEscaper (Path d) else [])"
    using assms sublist_append_leftI [of "htmlEscaper (Path d)" "''/''"] by simp
  then show ?thesis
    unfolding tmplBuild_def by (rule skip2 [OF sublist_appL])
qed

lemma build_BinName: "sublist (htmlEscaper (BinName d)) (tmplBuild d)"
  unfolding tmplBuild_def by (rule skip4, rule sublist_appR, rule sublist_append_rightI)

lemma field_rendered:
  assumes "v \<in> fieldValues d" and "v \<noteq> []"
  shows "sublist (htmlEscaper v) (tmplText d)"
proof -
  have "sublist (htmlEscaper v) (tmplHead d) \<or> sublist (htmlEscaper v) (tmplBuild d)"
    using assms head_PkgName [of d] head_Dir [of d] head_PkgVer [of d] head_Repo [of d]
      head_Root [of d] head_Depends [of v d] build_Path [of d] build_BinName [of d]
    by (auto simp add: fieldValues_def)
  then show ?thesis
    unfolding tmplText_def
    using sublist_appL [of "htmlEscaper v" "tmplHead d" "tmplPkgver @ tmplBuild d"]
      skip2 [of "htmlEscaper v" "tmplBuild d" "tmplHead d" tmplPkgver]
    by auto
qed

subsection \<open>What a successful run renders\<close>

lemma orchestrate_renders:
  assumes "scn st = l1 # l2 # l3 # rest"
    and "relPathOf (RepoRoot.Root repoRoot) importPath = Inr relPath"
    and "snd (getVersion w repoRoot) = Inr version"
    and "writeLimit w = None"
  shows "files (snd (orchestrate w importPath out repoRoot st))
      = files (WriteDest out (tmplText (rendered repoRoot importPath relPath version l1 l2 l3)) st)"
    and "stdout (snd (orchestrate w importPath out repoRoot st))
      = stdout (WriteDest out (tmplText (rendered repoRoot importPath relPath version l1 l2 l3)) st)"
  using assms
  by (cases out; simp add: orchestrate_def prompt_line tmplExecute_def rendered_def Let_def)+

lemma line_pkgver: "sublist (''\<newline>'' @ tmplPkgverLine d @ ''\<newline>'') (tmplText d)"
proof -
  have "sublist (''\<newline>'' @ tmplPkgverLine d @ ''\<newline>'') (tmplHead d)"
    unfolding tmplHead_def
    by (rule skip4, rule sublist_appR, rule sub3)
  then show ?thesis
    unfolding tmplText_def by (rule sublist_appL)
qed

lemma line_depends: "sublist (''\<newline>'' @ tmplDependsLine d @ ''\<newline>'') (tmplText d)"
proof -
  have "sublist (''\<newline>'' @ tmplDependsLine d @ ''\<newline>'') (tmplHead d)"
    unfolding tmplHead_def
    by (rule skip8, rule skip8, rule skip2, rule sublist_appR, rule sub3)
  then show ?thesis
    unfolding tmplText_def by (rule sublist_appL)
qed

subsection \<open>The dependency list and the version\<close>

lemma spaced_Cons: "xs \<noteq> [] \<Longrightarrow> spaced (x # xs) = x @ '' '' @ spaced xs"
  by (cases xs) simp_all

lemma FieldsLoop_Nil:
  "FieldsLoop f cur [] = (case cur of None \<Rightarrow> [] | Some c \<Rightarrow> [c])"
  by (simp add: FieldsLoop.simps)

lemma FieldsLoop_ascii:
  "(of_char a :: nat) < 128 \<Longrightarrow>
   FieldsLoop f cur (a # t) =
     (if f (of_char a)
      then (case cur of Some c \<Rightarrow> c # FieldsLoop f None t | None \<Rightarrow> FieldsLoop f None t)
      else FieldsLoop f (Some ((case cur of None \<Rightarrow> [] | Some c \<Rightarrow> c) @ [a])) t)"
  by (subst FieldsLoop.simps) (simp add: DecodeRune_ascii Let_def split: option.splits)

lemma FieldsLoop_chars:
  assumes "\<forall>c \<in> set w. (of_char c :: nat) < 128 \<and> \<not> IsSpace (of_char c)"
  shows "FieldsLoop IsSpace (Some pre) (w @ rest) = FieldsLoop IsSpace (Some (pre @ w)) rest"
  using assms
proof (induction w arbitrary: pre)
  case Nil
  then show ?case by simp
next
  case (Cons a w)
  then show ?case by (simp add: FieldsLoop_ascii)
qed

lemma FieldsLoop_word:
  assumes "word w"
  shows "FieldsLoop IsSpace None (w @ rest) = FieldsLoop IsSpace (Some w) rest"
proof -
  obtain a t where w: "w = a # t" using assms by (cases w) (auto simp add: word_def)
  have "FieldsLoop IsSpace None (a # t @ rest) = FieldsLoop IsSpace (Some [a]) (t @ rest)"
    using assms w by (simp add: FieldsLoop_ascii word_def)
  also have "\<dots> = FieldsLoop IsSpace (Some ([a] @ t)) rest"
    using assms w by (intro FieldsLoop_chars) (simp add: word_def)
  finally show ?thesis using w by simp
qed

text \<open>Splitting words joined by single spaces gives the words back, in order.\<close>

lemma Fields_spaced:
  assumes "\<forall>w \<in> set ws. word w"
  shows "Fields (spaced ws) = ws"
  using assms
proof (induction ws)
  case Nil
  then show ?case by (simp add: Fields_Nil)
next
  case (Cons w ws)
  show ?case
  proof (cases "ws = []")
    case True
    then show ?thesis
      using Cons.prems FieldsLoop_word [of w "[]"]
      by (simp add: Fields_def FieldsFunc_def FieldsLoop_Nil)
  next
    case False
    have sp: "(of_char (CHR '' '') :: nat) < 128" "IsSpace (of_char (CHR '' ''))"
      by (simp_all add: IsSpace_def)
    have "FieldsLoop IsSpace None (w @ CHR '' '' # spaced ws)
        = FieldsLoop IsSpace (Some w) (CHR '' '' # spaced ws)"
      using Cons.prems by (intro FieldsLoop_word) simp
    also have "\<dots> = w # FieldsLoop IsSpace None (spaced ws)"
      using sp by (simp add: FieldsLoop_ascii)
    also have "\<dots> = w # ws"
      using Cons by (simp add: Fields_def FieldsFunc_def)
    finally show ?thesis
      using False by (simp add: Fields_def FieldsFunc_def spaced_Cons)
  qed
qed

text \<open>
  The range action of line 50 puts each element between single quotes and one space
  between elements.
\<close>

lemma rangeDepends_spaced:
  "rangeDepends i deps
     = (if i \<noteq> 0 \<and> deps \<noteq> [] then '' '' else []) @ spaced (map quoted deps)"
proof (induction deps arbitrary: i)
  case Nil
  then show ?case by simp
next
  case (Cons v deps)
  show ?case
    by (cases "deps = []") (simp_all add: Cons.IH quoted_def spaced_Cons)
qed

lemma tmplDependsLine_spaced:
  "tmplDependsLine d = ''depends=('' @ spaced (map quoted (Depends d)) @ '')''"
  by (simp add: tmplDependsLine_def rangeDepends_spaced)

text \<open>
  C7. The dependency line is split on white space into an ordered list (words joined by
  single spaces come back as they are, in order), and line 50 of the template renders
  the list between parentheses, each element between single quotes, with one space
  between elements: \<open>foo bar\<close> gives \<open>depends=('foo' 'bar')\<close>, the empty line gives
  \<open>depends=()\<close>; and that line is a line of every rendered recipe.
\<close>

theorem depends_rendering:
  \<open>Fields ''foo bar'' = [''foo'', ''bar'']
   \<and> tmplDependsLine (d\<lparr>Depends := Fields ''foo bar''\<rparr>) = ''depends=('foo' 'bar')''
   \<and> Fields [] = []
   \<and> tmplDependsLine (d\<lparr>Depends := Fields []\<rparr>) = ''depends=()''
   \<and> sublist (''\<newline>'' @ tmplDependsLine d @ ''\<newline>'') (tmplText d)
   \<and> tmplDependsLine d = ''depends=('' @ spaced (map quoted (Depends d)) @ '')''
   \<and> ((\<forall>w \<in> set ws. word w) \<longrightarrow> Fields (spaced ws) = ws)\<close>
proof (intro conjI)
  show \<open>Fields ''foo bar'' = [''foo'', ''bar'']\<close>
    by (simp add: utf8_eval strings_eval)
  show \<open>tmplDependsLine (d\<lparr>Depends := Fields ''foo bar''\<rparr>) = ''depends=('foo' 'bar')''\<close>
    by (simp add: tmplDependsLine_def utf8_eval strings_eval html_eval)
  show \<open>Fields [] = []\<close>
    by (rule Fields_Nil)
  show \<open>tmplDependsLine (d\<lparr>Depends := Fields []\<rparr>) = ''depends=()''\<close>
    by (simp add: tmplDependsLine_def Fields_Nil)
  show \<open>sublist (''\<newline>'' @ tmplDependsLine d @ ''\<newline>'') (tmplText d)\<close>
    by (rule line_depends)
  show \<open>tmplDependsLine d = ''depends=('' @ spaced (map quoted (Depends d)) @ '')''\<close>
    by (rule tmplDependsLine_spaced)
  show \<open>(\<forall>w \<in> set ws. word w) \<longrightarrow> Fields (spaced ws) = ws\<close>
    using Fields_spaced [of ws] by blast
qed

theorem depends_rendering_witness:
  \<open>Fields (spaced [''foo'', ''bar'']) = [''foo'', ''bar'']
   \<and> spaced [''foo'', ''bar''] = ''foo bar''\<close>
  using depends_rendering [of d_amp "[''foo'', ''bar'']"]
  by (simp add: word_def IsSpace_def)

text \<open>
  The whole run on the example of the README, with \<open>foo bar\<close> as the answer to the second
  prompt: the file \<open>PKGBUILD\<close> holds the recipe whose line 50 is
  \<open>depends=('foo' 'bar')\<close>.
\<close>

lemma run_example_depends:
  \<open>files (snd (run (w_ex [''genpkgbuild-go'', ''github.com/golang/lint/golint''])
                   (st_ex ['''', ''foo bar'', '''']))) ''PKGBUILD''
     = Some (tmplText (rendered golint ''github.com/golang/lint/golint'' ''golint''
               ''r179.414d861'' '''' ''foo bar'' ''''))
   \<and> tmplDependsLine (rendered golint ''github.com/golang/lint/golint'' ''golint''
               ''r179.414d861'' '''' ''foo bar'' '''') = ''depends=('foo' 'bar')''\<close>
proof
  let ?w = "w_ex [''genpkgbuild-go'', ''github.com/golang/lint/golint'']"
  let ?st = "(st_ex ['''', ''foo bar'', ''''])\<lparr>files := [''PKGBUILD'' \<mapsto> []]\<rparr>"
  have a1: "scn ?st = '''' # ''foo bar'' # '''' # []"
    by (simp add: st_ex_def)
  have a2: "relPathOf (RepoRoot.Root golint) ''github.com/golang/lint/golint'' = Inr ''golint''"
    by (simp add: golint_def golint_paths)
  have a3: "snd (getVersion ?w golint) = Inr ''r179.414d861''"
    by (simp add: getVersion_def w_ex_def utf8_eval strings_eval)
  have a4: "writeLimit ?w = None"
    by (simp add: w_ex_def)
  have r: "run ?w (st_ex ['''', ''foo bar'', ''''])
      = orchestrate ?w ''github.com/golang/lint/golint'' (File ''PKGBUILD'') golint ?st"
    by (simp add: run_def openOutput_def parseArgs_path w_ex_def st_ex_def golint_def)
  show "files (snd (run ?w (st_ex ['''', ''foo bar'', '''']))) ''PKGBUILD''
     = Some (tmplText (rendered golint ''github.com/golang/lint/golint'' ''golint''
               ''r179.414d861'' '''' ''foo bar'' ''''))"
    unfolding r orchestrate_renders(1) [OF a1 a2 a3 a4]
    by (simp add: st_ex_def)
  show \<open>tmplDependsLine (rendered golint ''github.com/golang/lint/golint'' ''golint''
               ''r179.414d861'' '''' ''foo bar'' '''') = ''depends=('foo' 'bar')''\<close>
    by (simp add: tmplDependsLine_def rendered_def utf8_eval strings_eval html_eval)
qed

text \<open>
  C8. \<open>getVersion\<close> returns the output of the version command with the surrounding white
  space trimmed; for the output \<open>r12.abcdef0\<close> followed by a newline, line 45 of the
  template renders \<open>pkgver=r12.abcdef0\<close>; and that line is a line of every rendered
  recipe.
\<close>

theorem version_trimmed:
  "(TempDir w = None \<and> Create w repoRoot = None \<and> Output w repoRoot = CmdOutput out
      \<longrightarrow> snd (getVersion w repoRoot) = Inr (TrimSpace out))
   \<and> TrimSpace ''r12.abcdef0\<newline>'' = ''r12.abcdef0''
   \<and> tmplPkgverLine (d\<lparr>PkgVer := TrimSpace ''r12.abcdef0\<newline>''\<rparr>) = ''pkgver=r12.abcdef0''
   \<and> sublist (''\<newline>'' @ tmplPkgverLine d @ ''\<newline>'') (tmplText d)"
proof (intro conjI)
  show "TempDir w = None \<and> Create w repoRoot = None \<and> Output w repoRoot = CmdOutput out
      \<longrightarrow> snd (getVersion w repoRoot) = Inr (TrimSpace out)"
    by (simp add: getVersion_def)
  show t: "TrimSpace ''r12.abcdef0\<newline>'' = ''r12.abcdef0''"
    by (simp add: utf8_eval strings_eval)
  show "tmplPkgverLine (d\<lparr>PkgVer := TrimSpace ''r12.abcdef0\<newline>''\<rparr>) = ''pkgver=r12.abcdef0''"
    unfolding t by (simp add: tmplPkgverLine_def html_eval utf8_eval)
  show "sublist (''\<newline>'' @ tmplPkgverLine d @ ''\<newline>'') (tmplText d)"
    by (rule line_pkgver)
qed

theorem version_trimmed_witness:
  "snd (getVersion (w_ex []\<lparr>Output := (\<lambda>r. CmdOutput ''r12.abcdef0\<newline>'')\<rparr>) golint)
     = Inr ''r12.abcdef0''"
  using version_trimmed [of "w_ex []\<lparr>Output := (\<lambda>r. CmdOutput ''r12.abcdef0\<newline>'')\<rparr>" golint
      "''r12.abcdef0\<newline>''"]
  by (simp add: w_ex_def)

subsection \<open>The two channels\<close>

text \<open>
  C9, as stated, fails. On the example of the README with a clone that fails, the run
  reaches the fork, the three prompts are answered, the error of the fetch is received
  from \<open>errC\<close> and returned, and \<open>versionC\<close> is never read: the goroutine's send on it
  never completes.
\<close>

theorem handoff_fetch_failure_counterexample:
  "fst (run w_noclone (st_ex ['''', '''', '''']))
     = Returned (Some (WrapError ''could not clone the repo: '' (ErrorString ''exit status 128'')))
   \<and> count_list (recvs (snd (run w_noclone (st_ex ['''', '''', ''''])))) ErrC = 1
   \<and> count_list (recvs (snd (run w_noclone (st_ex ['''', '''', ''''])))) VersionC = 0"
  by (simp add: run_def orchestrate_def openOutput_def getVersion_def world_eval
      parseArgs_path golint_paths prompt_line TrimSpace_Nil Fields_Nil Let_def)

text \<open>
  C9, amended. From the fork on, the orchestrator receives only after the prompts: from
  \<open>errC\<close> once and then from \<open>versionC\<close> once when the three prompts, the relative path
  and the fetch succeed; from \<open>errC\<close> once and never from \<open>versionC\<close> when the fetch
  fails; from neither when a prompt or the relative path fails. Each receive it performs
  meets the goroutine's send on the same channel, so each channel is written as many
  times as it is read.
\<close>

theorem handoff_receives:
  "recvs (snd (orchestrate w importPath out repoRoot st))
     = recvs st @ joined w importPath repoRoot st
   \<and> rendezvous goroutineSends (joined w importPath repoRoot st)
     = joined w importPath repoRoot st"
proof
  show "rendezvous goroutineSends (joined w importPath repoRoot st)
     = joined w importPath repoRoot st"
    by (simp add: joined_def goroutineSends_def)
  show "recvs (snd (orchestrate w importPath out repoRoot st))
     = recvs st @ joined w importPath repoRoot st"
  proof (cases "scn st")
    case Nil
    then show ?thesis
      by (simp add: orchestrate_def prompt_no_line joined_def Let_def)
  next
    case c1: (Cons l1 r1)
    show ?thesis
    proof (cases r1)
      case Nil
      with c1 show ?thesis
        by (simp add: orchestrate_def prompt_line prompt_no_line joined_def Let_def)
    next
      case c2: (Cons l2 r2)
      show ?thesis
      proof (cases r2)
        case Nil
        with c1 c2 show ?thesis
          by (simp add: orchestrate_def prompt_line prompt_no_line joined_def Let_def
              split: sum.splits)
      next
        case (Cons l3 r3)
        with c1 c2 show ?thesis
          by (simp add: orchestrate_def prompt_line joined_def Let_def tmplExecute_recvs
              split: sum.splits)
      qed
    qed
  qed
qed

theorem handoff_receives_witness:
  "recvs (snd (orchestrate w_noclone ''github.com/golang/lint/golint'' (File ''PKGBUILD'')
      golint (st_ex ['''', '''', '''']))) = [ErrC]
   \<and> recvs (snd (orchestrate (w_ex []) ''github.com/golang/lint/golint'' (File ''PKGBUILD'')
      golint (st_ex ['''', '''', '''']))) = [ErrC, VersionC]
   \<and> recvs (snd (orchestrate (w_ex []) ''github.com/golang/lint/golint'' (File ''PKGBUILD'')
      golint (st_ex ['''', '''']))) = []"
  using handoff_receives [of w_noclone "''github.com/golang/lint/golint''" "File ''PKGBUILD''"
      golint "st_ex ['''', '''', '''']"]
    handoff_receives [of "w_ex []" "''github.com/golang/lint/golint''" "File ''PKGBUILD''"
      golint "st_ex ['''', '''', '''']"]
    handoff_receives [of "w_ex []" "''github.com/golang/lint/golint''" "File ''PKGBUILD''"
      golint "st_ex ['''', '''']"]
  by (simp add: joined_def getVersion_def world_eval golint_paths)

subsection \<open>HTML escaping\<close>


text \<open>
  C10. Every value a recipe is rendered from appears in the recipe as \<open>htmlEscaper\<close>
  leaves it. When the value holds a character the escaper replaces (among them
  \<open>&\<close>, \<open><\<close>, \<open>>\<close>, the single and the double quote), the escaped value, and so the
  recipe, holds the entity; the escaped value holds the character itself no more
  (unless it is \<open>&\<close>, with which every entity starts), and differs from the value:
  rendering is not the identity.
\<close>

theorem rendering_escapes_html:
  assumes "v \<in> fieldValues d" and "c \<in> set v"
    and "htmlReplacementTable (of_char c) = Some e"
  shows \<open>sublist (htmlEscaper v) (tmplText d)
    \<and> sublist e (htmlEscaper v)
    \<and> sublist e (tmplText d)
    \<and> (c \<noteq> CHR ''&'' \<longrightarrow> c \<notin> set (htmlEscaper v))
    \<and> htmlEscaper v \<noteq> v
    \<and> htmlReplacementTable (of_char (CHR ''&'')) = Some ''&amp;''
    \<and> htmlReplacementTable (of_char (CHR ''<'')) = Some ''&lt;''
    \<and> htmlReplacementTable (of_char (CHR ''>'')) = Some ''&gt;''
    \<and> htmlReplacementTable (of_char (CHR 0x27)) = Some ''&#39;''
    \<and> htmlReplacementTable (of_char (CHR 0x22)) = Some ''&#34;''\<close>
proof -
  have "v \<noteq> []" using assms(2) by auto
  then have "sublist (htmlEscaper v) (tmplText d)"
    using assms(1) by (rule field_rendered [rotated])
  moreover have "sublist e (htmlEscaper v)"
    using htmlReplacer_entity [OF assms(2,3)] by (simp add: htmlEscaper_def sublist_def)
  ultimately have contained: "sublist (htmlEscaper v) (tmplText d)"
    "sublist e (htmlEscaper v)" "sublist e (tmplText d)"
    by (auto intro: sublist_order.order_trans)
  have "c \<noteq> CHR ''&'' \<longrightarrow> c \<notin> set (htmlEscaper v)"
    using htmlReplacer_clean [OF assms(3)] by (simp add: htmlEscaper_def)
  moreover have "htmlEscaper v \<noteq> v"
    using htmlReplacer_longer [OF assms(2,3)] by (auto simp add: htmlEscaper_def)
  ultimately show ?thesis
    using contained by (simp add: htmlReplacementTable_def)
qed

theorem rendering_escapes_html_witness:
  \<open>sublist (htmlEscaper ''a&b'') (tmplText d_amp)
   \<and> sublist ''&amp;'' (htmlEscaper ''a&b'')
   \<and> htmlEscaper ''a&b'' \<noteq> ''a&b''
   \<and> sublist (htmlEscaper ''<x>'') (tmplText d_amp)
   \<and> sublist ''&lt;'' (htmlEscaper ''<x>'')
   \<and> CHR ''<'' \<notin> set (htmlEscaper ''<x>'')\<close>
  using rendering_escapes_html [of "''a&b''" d_amp "CHR ''&''" "''&amp;''"]
    rendering_escapes_html [of "''<x>''" d_amp "CHR ''<''" "''&lt;''"]
  by (simp add: fieldValues_def d_amp_def htmlReplacementTable_def)

text \<open>The escaped forms of the two values of the example.\<close>

lemma htmlEscaper_examples:
  \<open>htmlEscaper ''a&b'' = ''a&amp;b'' \<and> htmlEscaper ''<x>'' = ''&lt;x&gt;''
   \<and> htmlEscaper ''lint-git'' = ''lint-git''\<close>
  by (simp add: html_eval utf8_eval)

text \<open>
  The whole run on the example of the README, with \<open>a&b\<close> as the answer to the first
  prompt: the file \<open>PKGBUILD\<close> starts with the line \<open>pkgname=a&amp;b\<close>.
\<close>

lemma run_example_escaped:
  \<open>files (snd (run (w_ex [''genpkgbuild-go'', ''github.com/golang/lint/golint''])
                   (st_ex [''a&b'', '''', '''']))) ''PKGBUILD''
     = Some (tmplText (rendered golint ''github.com/golang/lint/golint'' ''golint''
               ''r179.414d861'' ''a&b'' '''' ''''))
   \<and> take 16 (tmplText (rendered golint ''github.com/golang/lint/golint'' ''golint''
               ''r179.414d861'' ''a&b'' '''' '''')) = ''pkgname=a&amp;b\<newline>''\<close>
proof
  let ?w = "w_ex [''genpkgbuild-go'', ''github.com/golang/lint/golint'']"
  let ?st = "(st_ex [''a&b'', '''', ''''])\<lparr>files := [''PKGBUILD'' \<mapsto> []]\<rparr>"
  let ?d = "rendered golint ''github.com/golang/lint/golint'' ''golint'' ''r179.414d861''
      ''a&b'' '''' ''''"
  have a1: "scn ?st = ''a&b'' # '''' # '''' # []"
    by (simp add: st_ex_def)
  have a2: "relPathOf (RepoRoot.Root golint) ''github.com/golang/lint/golint'' = Inr ''golint''"
    by (simp add: golint_def golint_paths)
  have a3: "snd (getVersion ?w golint) = Inr ''r179.414d861''"
    by (simp add: getVersion_def w_ex_def utf8_eval strings_eval)
  have a4: "writeLimit ?w = None"
    by (simp add: w_ex_def)
  have r: "run ?w (st_ex [''a&b'', '''', ''''])
      = orchestrate ?w ''github.com/golang/lint/golint'' (File ''PKGBUILD'') golint ?st"
    by (simp add: run_def openOutput_def parseArgs_path w_ex_def st_ex_def golint_def)
  show "files (snd (run ?w (st_ex [''a&b'', '''', '''']))) ''PKGBUILD'' = Some (tmplText ?d)"
    unfolding r orchestrate_renders(1) [OF a1 a2 a3 a4]
    by (simp add: st_ex_def)
  have n: "PkgName ?d = ''a&b''"
    by (simp add: rendered_def utf8_eval strings_eval)
  show "take 16 (tmplText ?d) = ''pkgname=a&amp;b\<newline>''"
    unfolding tmplText_def tmplHead_def n
    by (simp add: html_eval utf8_eval)
qed

end
